theory Spec2Isabelle
  imports Main
begin

section \<open>Strings\<close>

text \<open>
  JavaScript strings are modelled as \<open>string\<close>, a character standing for a code unit
  below 256; strings that hold other code units are not represented. \<open>startsWith\<close> and
  \<open>str_includes\<close> are \<^verbatim>\<open>String.prototype.startsWith\<close> and
  \<^verbatim>\<open>String.prototype.includes\<close>: the second argument occurs as a contiguous piece of the
  first.
\<close>

fun startsWith :: "string \<Rightarrow> string \<Rightarrow> bool" where
  "startsWith s [] = True"
| "startsWith [] (c # cs) = False"
| "startsWith (x # xs) (c # cs) = (x = c \<and> startsWith xs cs)"

fun str_includes :: "string \<Rightarrow> string \<Rightarrow> bool" where
  "str_includes [] sub = (sub = [])"
| "str_includes (x # xs) sub = (startsWith (x # xs) sub \<or> str_includes xs sub)"

text \<open>\<^verbatim>\<open>String(b)\<close> for a boolean.\<close>

definition jsString :: "bool \<Rightarrow> string" where
  "jsString b = (if b then ''true'' else ''false'')"

text \<open>Truthiness of an optional string: \<^verbatim>\<open>undefined\<close> and the empty string are falsy.\<close>

definition truthy :: "string option \<Rightarrow> bool" where
  "truthy s = (case s of None \<Rightarrow> False | Some t \<Rightarrow> t \<noteq> [])"

section \<open>The form and its controls\<close>

text \<open>
  A \<open>control\<close> is a listed form element (input, textarea, select, button or fieldset) with
  the properties and attributes that form.ts reads or writes: \<open>required\<close> is
  \<^verbatim>\<open>hasAttribute('required')\<close>, \<open>tabindex\<close> the content attribute, \<open>originalRequired\<close>
  the entry \<^verbatim>\<open>dataset.originalRequired\<close>, \<open>ariaInvalid\<close> the attribute
  \<^verbatim>\<open>aria-invalid\<close>.
\<close>

record control =
  tagName :: string
  ctype :: string
  cid :: string
  cname :: string
  cvalue :: string
  checked :: bool
  disabled :: bool
  required :: bool
  tabindex :: "string option"
  originalRequired :: "string option"
  ariaInvalid :: "string option"

text \<open>
  A \<open>wrapper\<close> is an element of class \<^verbatim>\<open>form-field\<close> as buildField makes it: a div, or
  a fieldset (then \<open>fieldsetElement\<close> holds the fieldset as the listed element it is),
  with its \<^verbatim>\<open>data-controller\<close>, \<^verbatim>\<open>data-condition\<close> and \<^verbatim>\<open>aria-hidden\<close> attributes and the listed
  elements below it in tree order. The children of the form are wrappers, bare inputs
  (type hidden), the div of submit and reset buttons, and the empty div that stands for a
  group or select without options.
\<close>

record wrapper =
  fieldsetElement :: "control option"
  dataController :: "string option"
  dataCondition :: "string option"
  ariaHidden :: "string option"
  controls :: "control list"

datatype child = Wrapper wrapper | Bare control | Buttons "control list" | Placeholder

record form =
  children :: "child list"
  dataAction :: "string option"
  dataConfirmation :: "string option"

fun listed :: "child \<Rightarrow> control list" where
  "listed (Wrapper w) = (case fieldsetElement w of None \<Rightarrow> [] | Some f \<Rightarrow> [f]) @ controls w"
| "listed (Bare c) = [c]"
| "listed (Buttons bs) = bs"
| "listed Placeholder = []"

text \<open>\<^verbatim>\<open>form.elements\<close>, in tree order.\<close>

definition elements :: "form \<Rightarrow> control list" where
  "elements fm = concat (map listed (children fm))"

text \<open>
  \<^verbatim>\<open>c.querySelector('input, textarea, select')\<close> on a wrapper: its first control with one of
  these tags.
\<close>

definition isControlTag :: "control \<Rightarrow> bool" where
  "isControlTag c = (tagName c = ''input'' \<or> tagName c = ''textarea'' \<or> tagName c = ''select'')"

definition firstControl :: "wrapper \<Rightarrow> control option" where
  "firstControl w = find isControlTag (controls w)"

fun updFirst :: "('a \<Rightarrow> bool) \<Rightarrow> ('a \<Rightarrow> 'a) \<Rightarrow> 'a list \<Rightarrow> 'a list" where
  "updFirst P f [] = []"
| "updFirst P f (x # xs) = (if P x then f x # xs else x # updFirst P f xs)"

definition wrapperAt :: "form \<Rightarrow> nat \<Rightarrow> wrapper option" where
  "wrapperAt fm j =
     (if j < length (children fm)
      then (case children fm ! j of Wrapper w \<Rightarrow> Some w | _ \<Rightarrow> None)
      else None)"

definition inputAt :: "form \<Rightarrow> nat \<Rightarrow> control option" where
  "inputAt fm j = (case wrapperAt fm j of None \<Rightarrow> None | Some w \<Rightarrow> firstControl w)"

text \<open>
  The controller map of enableConditionals, \<^verbatim>\<open>Map<string, FormControlElement[]>\<close>, in
  insertion order. A reference to a controlled control is the position \<open>j\<close> of its wrapper
  among the children of the form: the control is the first input, textarea or select of
  that wrapper, which is how enableConditionals picks it, and the wrapper is what
  \<^verbatim>\<open>closest('.form-field')\<close> returns for it. \<open>atWrapper f fm j\<close> is the mutation \<open>f\<close> of
  that wrapper and its control.
\<close>

type_synonym controllerConfig = "(string \<times> nat list) list"

definition atWrapper :: "(wrapper \<Rightarrow> wrapper) \<Rightarrow> form \<Rightarrow> nat \<Rightarrow> form" where
  "atWrapper f fm j =
     (case wrapperAt fm j of
        None \<Rightarrow> fm
      | Some w \<Rightarrow> fm\<lparr>children := (children fm)[j := Wrapper (f w)]\<rparr>)"

section \<open>Conditional visibility\<close>

record event =
  targetName :: string
  targetValue :: string

text \<open>
  \<^verbatim>\<open>condition ? condition.includes(toClassName(value)) : false\<close>. The function toClassName
  is imported from utils/toClassName and its code is not available: it is the parameter
  \<open>toClassName\<close> of everything that calls it.
\<close>

definition conditionMet :: "(string \<Rightarrow> string) \<Rightarrow> string option \<Rightarrow> string \<Rightarrow> bool" where
  "conditionMet toClassName cond v =
     (case cond of
        None \<Rightarrow> False
      | Some c \<Rightarrow> if c \<noteq> [] then str_includes c (toClassName v) else False)"

text \<open>The body of the loop of toggleConditional, on the control \<open>i\<close> and on its wrapper.\<close>

definition toggleInput :: "bool \<Rightarrow> control \<Rightarrow> control" where
  "toggleInput met i =
     (if met
      then (if originalRequired i = Some ''true'' then i\<lparr>required := True\<rparr> else i)
             \<lparr>tabindex := None\<rparr>
      else i\<lparr>required := False, tabindex := Some ''-1''\<rparr>)"

definition toggleField :: "(string \<Rightarrow> string) \<Rightarrow> string \<Rightarrow> wrapper \<Rightarrow> wrapper" where
  "toggleField toClassName v w =
     (let met = conditionMet toClassName (dataCondition w) v
      in w\<lparr>ariaHidden := Some (jsString (\<not> met)),
           controls := updFirst isControlTag (toggleInput met) (controls w)\<rparr>)"

definition toggleConditional ::
  "(string \<Rightarrow> string) \<Rightarrow> event \<Rightarrow> controllerConfig \<Rightarrow> form \<Rightarrow> form" where
  "toggleConditional toClassName e controllerConfig fm =
     (case map_of controllerConfig (targetName e) of
        None \<Rightarrow> fm
      | Some inputs \<Rightarrow> foldl (atWrapper (toggleField toClassName (targetValue e))) fm inputs)"

text \<open>
  The value of a controller as initConditionals finds it: the first element with that name
  that is \<^verbatim>\<open>:checked\<close> (a checked radio or checkbox), else the first select of that name.
\<close>

definition isChecked :: "control \<Rightarrow> bool" where
  "isChecked c =
     (tagName c = ''input'' \<and> (ctype c = ''radio'' \<or> ctype c = ''checkbox'') \<and> checked c)"

definition controllerValue :: "form \<Rightarrow> string \<Rightarrow> string option" where
  "controllerValue fm controller =
     (case find (\<lambda>c. cname c = controller \<and> isChecked c) (elements fm) of
        Some c \<Rightarrow> Some (cvalue c)
      | None \<Rightarrow>
          (case find (\<lambda>c. tagName c = ''select'' \<and> cname c = controller) (elements fm) of
             Some s \<Rightarrow> Some (cvalue s)
           | None \<Rightarrow> None))"

text \<open>Storing the original required state, \<^verbatim>\<open>if (!input.dataset.originalRequired)\<close>.\<close>

definition storeOriginalRequired :: "control \<Rightarrow> control" where
  "storeOriginalRequired i =
     (if truthy (originalRequired i) then i else i\<lparr>originalRequired := Some ''true''\<rparr>)"

text \<open>The two loop bodies of initConditionals: controller value found, and not found.\<close>

definition initInput :: "bool \<Rightarrow> control \<Rightarrow> control" where
  "initInput met i =
     (let i1 = (if required i
                then (let i2 = storeOriginalRequired i
                      in if \<not> met then i2\<lparr>required := False\<rparr> else i2)
                else i)
      in if met then i1\<lparr>tabindex := None\<rparr> else i1\<lparr>tabindex := Some ''-1''\<rparr>)"

definition initField :: "(string \<Rightarrow> string) \<Rightarrow> string \<Rightarrow> wrapper \<Rightarrow> wrapper" where
  "initField toClassName safeValue w =
     (let met = conditionMet toClassName (dataCondition w) safeValue
      in w\<lparr>ariaHidden := Some (jsString (\<not> met)),
           controls := updFirst isControlTag (initInput met) (controls w)\<rparr>)"

definition hideInput :: "control \<Rightarrow> control" where
  "hideInput i =
     (let i1 = (if required i then (storeOriginalRequired i)\<lparr>required := False\<rparr> else i)
      in i1\<lparr>tabindex := Some ''-1''\<rparr>)"

definition hideField :: "wrapper \<Rightarrow> wrapper" where
  "hideField w =
     w\<lparr>ariaHidden := Some ''true'', controls := updFirst isControlTag hideInput (controls w)\<rparr>"

definition initController ::
  "(string \<Rightarrow> string) \<Rightarrow> form \<Rightarrow> string \<times> nat list \<Rightarrow> form" where
  "initController toClassName fm entry =
     (case entry of (controller, controlledInputs) \<Rightarrow>
        (if truthy (controllerValue fm controller)
         then foldl (atWrapper (initField toClassName (the (controllerValue fm controller))))
                fm controlledInputs
         else foldl (atWrapper hideField) fm controlledInputs))"

definition initConditionals ::
  "(string \<Rightarrow> string) \<Rightarrow> form \<Rightarrow> controllerConfig \<Rightarrow> form" where
  "initConditionals toClassName fm controllerConfig =
     foldl (initController toClassName) fm controllerConfig"

section \<open>Submission\<close>

text \<open>
  The payload is the object that generatePayload fills, as a map from its own keys to
  their values. It starts as \<^verbatim>\<open>{}\<close> and so inherits from \<^verbatim>\<open>Object.prototype\<close>: under one
  of the names below, \<^verbatim>\<open>payload[name]\<close> is a function (the prototype itself under
  \<^verbatim>\<open>__proto__\<close>) as long as no own key of that name is stored, which is truthy; what a
  template literal makes of it depends on the engine and is the parameter
  \<open>inheritedText\<close>. An assignment stores an own key, except under \<^verbatim>\<open>__proto__\<close>, where the
  inherited setter ignores a string and nothing is stored.
\<close>

type_synonym payload = "string \<rightharpoonup> string"

definition objectPrototypeNames :: "string list" where
  "objectPrototypeNames =
     [''constructor'', ''hasOwnProperty'', ''isPrototypeOf'', ''propertyIsEnumerable'',
      ''toLocaleString'', ''toString'', ''valueOf'', ''__defineGetter__'',
      ''__defineSetter__'', ''__lookupGetter__'', ''__lookupSetter__'', ''__proto__'']"

definition assignKey :: "payload \<Rightarrow> string \<Rightarrow> string \<Rightarrow> payload" where
  "assignKey payload name v = (if name = ''__proto__'' then payload else payload(name \<mapsto> v))"

text \<open>
  \<open>payloadStep\<close> is the body of the loop. \<^verbatim>\<open>payload[name] ? a : b\<close> tests what is read
  under the name for truthiness: an own empty string takes the second branch, as a name
  that is neither stored nor inherited does.
\<close>

definition payloadStep :: "(string \<Rightarrow> string) \<Rightarrow> payload \<Rightarrow> control \<Rightarrow> payload" where
  "payloadStep inheritedText payload field =
     (if cname field \<noteq> [] \<and> \<not> disabled field
      then (if ctype field = ''radio''
            then (if checked field
                  then assignKey payload (cname field) (cvalue field)
                  else payload)
            else if ctype field = ''checkbox''
            then (if checked field
                  then assignKey payload (cname field)
                         (case payload (cname field) of
                            Some stored \<Rightarrow>
                              if stored \<noteq> [] then stored @ '','' @ cvalue field
                              else cvalue field
                          | None \<Rightarrow>
                              if cname field \<in> set objectPrototypeNames
                              then inheritedText (cname field) @ '','' @ cvalue field
                              else cvalue field)
                  else payload)
            else assignKey payload (cname field) (cvalue field))
      else payload)"

definition generatePayload :: "(string \<Rightarrow> string) \<Rightarrow> form \<Rightarrow> payload" where
  "generatePayload inheritedText fm =
     foldl (payloadStep inheritedText) Map.empty (elements fm)"

text \<open>
  toggleForm: every listed element of the model has the \<^verbatim>\<open>disabled\<close> property, so
  each one is assigned.
\<close>

fun toggleChild :: "bool \<Rightarrow> child \<Rightarrow> child" where
  "toggleChild d (Wrapper w) =
     Wrapper (w\<lparr>fieldsetElement :=
                  map_option (\<lambda>c. c\<lparr>disabled := d\<rparr>) (fieldsetElement w),
                controls := map (\<lambda>c. c\<lparr>disabled := d\<rparr>) (controls w)\<rparr>)"
| "toggleChild d (Bare c) = Bare (c\<lparr>disabled := d\<rparr>)"
| "toggleChild d (Buttons bs) = Buttons (map (\<lambda>c. c\<lparr>disabled := d\<rparr>) bs)"
| "toggleChild d Placeholder = Placeholder"

definition toggleForm :: "form \<Rightarrow> bool \<Rightarrow> form" where
  "toggleForm fm d = fm\<lparr>children := map (toggleChild d) (children fm)\<rparr>"

text \<open>
  What the code awaits is a promise that is fulfilled, is rejected, or never settles. The
  transport is the parameter \<open>fetch\<close>: from the target and the payload to the promise of a
  response, of which handleSubmit reads \<^verbatim>\<open>ok\<close> and, when it is false, \<^verbatim>\<open>text()\<close>.
\<close>

datatype 'a promise = Fulfilled 'a | Rejected string | NeverSettles

record response =
  ok :: bool
  bodyText :: "string promise"

text \<open>
  The page: the form, the address last assigned to \<^verbatim>\<open>window.location.href\<close> (if any),
  what was passed to \<^verbatim>\<open>console.error\<close>, the custom events dispatched on the form, the
  control that has the focus (the \<open>k\<close>-th control of wrapper \<open>j\<close>), the listeners that
  initOtpBehavior attaches, and the elements and variables it creates.
\<close>

datatype eventKey = MobileInputEvent | ResendClickEvent | FormSubmitEvent

datatype handler = MaybeStartTimer | ResendClick | OtpSubmitCount | OtpSubmitVerify

record otpSession =
  otpField :: nat
  otpInputName :: string
  limitMessageText :: string
  loaderDisplay :: string
  resendButtonDisplay :: string
  limitMessageDisplay :: string
  loaderText :: string
  timerText :: string
  otpRetryDisplay :: string
  resendCount :: nat
  timerId :: "nat option"
  activeIntervals :: "nat list"
  nextIntervalId :: nat
  timerStarted :: bool
  remaining :: int
  otpErrorCount :: nat

record page =
  pform :: form
  href :: "string option"
  consoleErrors :: "string list"
  dispatched :: "string list"
  focused :: "(nat \<times> nat) option"
  listeners :: "(eventKey \<times> handler) list"
  otp :: "otpSession option"

text \<open>
  The try block of handleSubmit ends normally, throws, or never gets past an await; the
  page it leaves behind is the one after \<^verbatim>\<open>toggleForm(form)\<close> and a possible navigation.
\<close>

datatype tryResult = Completed page | Threw string page | Hangs

definition submitTry ::
  "(string \<Rightarrow> string) \<Rightarrow> (string \<Rightarrow> payload \<Rightarrow> response promise) \<Rightarrow> page
     \<Rightarrow> tryResult" where
  "submitTry inheritedText fetch pg =
     (let payload = generatePayload inheritedText (pform pg);
          pg1 = pg\<lparr>pform := toggleForm (pform pg) True\<rparr>
      in if \<not> truthy (dataAction (pform pg1)) then Threw ''Missing form action'' pg1
         else (case fetch (the (dataAction (pform pg1))) payload of
                 NeverSettles \<Rightarrow> Hangs
               | Rejected err \<Rightarrow> Threw err pg1
               | Fulfilled resp \<Rightarrow>
                   (if ok resp
                    then (if truthy (dataConfirmation (pform pg1))
                          then Completed (pg1\<lparr>href := dataConfirmation (pform pg1)\<rparr>)
                          else Completed pg1)
                    else (case bodyText resp of
                            NeverSettles \<Rightarrow> Hangs
                          | Rejected err \<Rightarrow> Threw err pg1
                          | Fulfilled error \<Rightarrow> Threw error pg1))))"

text \<open>
  handleSubmit: the catch block logs, the finally block runs \<^verbatim>\<open>toggleForm(form, false)\<close>.
  \<open>None\<close> is the attempt that never settles.
\<close>

definition handleSubmit ::
  "(string \<Rightarrow> string) \<Rightarrow> (string \<Rightarrow> payload \<Rightarrow> response promise) \<Rightarrow> page
     \<Rightarrow> page option" where
  "handleSubmit inheritedText fetch pg =
     (case submitTry inheritedText fetch pg of
        Hangs \<Rightarrow> None
      | Completed pg1 \<Rightarrow> Some (pg1\<lparr>pform := toggleForm (pform pg1) False\<rparr>)
      | Threw error pg1 \<Rightarrow>
          (let pg2 = pg1\<lparr>consoleErrors := consoleErrors pg1 @ [error]\<rparr>
           in Some (pg2\<lparr>pform := toggleForm (pform pg2) False\<rparr>)))"

section \<open>Field descriptors\<close>

text \<open>The interface FieldConfig: every entry is optional.\<close>

record FieldConfig =
  f_type :: "string option"
  f_field :: "string option"
  f_label :: "string option"
  f_help :: "string option"
  f_required :: "string option"
  f_default :: "string option"
  f_placeholder :: "string option"
  f_options :: "string option"
  f_conditional :: "string option"
  f_value :: "string option"
  f_pattern :: "string option"
  f_maxlength :: "string option"
  f_inputmode :: "string option"

text \<open>\<^verbatim>\<open>x || d\<close> on an optional string.\<close>

definition orElse :: "string option \<Rightarrow> string \<Rightarrow> string" where
  "orElse x d = (if truthy x then the x else d)"

definition getFormConfigValue :: "FieldConfig list \<Rightarrow> string \<Rightarrow> string \<Rightarrow> string" where
  "getFormConfigValue fieldList name fallback =
     (case find (\<lambda>f. f_field f = Some name) fieldList of
        None \<Rightarrow> fallback
      | Some entry \<Rightarrow>
          if truthy (f_default entry) then the (f_default entry)
          else if truthy (f_value entry) then the (f_value entry)
          else fallback)"

section \<open>The OTP sub-flow\<close>

text \<open>Decimal notation, for the template literal that shows the seconds left.\<close>

definition digitChar :: "nat \<Rightarrow> char" where
  "digitChar d = ''0123456789'' ! (d mod 10)"

fun showNat :: "nat \<Rightarrow> string" where
  "showNat n = (if n < 10 then [digitChar n] else showNat (n div 10) @ [digitChar (n mod 10)])"

declare showNat.simps [simp del]

definition showInt :: "int \<Rightarrow> string" where
  "showInt i = (if i < 0 then CHR ''-'' # showNat (nat (- i)) else showNat (nat i))"

definition resendTimerSeconds :: int where
  "resendTimerSeconds = 30"

definition resendLimit :: nat where
  "resendLimit = 3"

definition otpErrorThreshold :: nat where
  "otpErrorThreshold = 0"

definition otpErrorRedirect :: string where
  "otpErrorRedirect = []"

definition resendLoaderLabel :: string where
  "resendLoaderLabel = ''Resend available in''"

definition otpSuccessRedirect :: string where
  "otpSuccessRedirect = ''/thank-you''"

definition setVisibility :: "string \<Rightarrow> otpSession \<Rightarrow> otpSession" where
  "setVisibility state s =
     s\<lparr>loaderDisplay := (if state = ''loading'' then ''flex'' else ''none''),
       resendButtonDisplay := (if state = ''ready'' then ''inline-flex'' else ''none''),
       limitMessageDisplay := (if state = ''limit'' then ''block'' else ''none'')\<rparr>"

definition resetVisibility :: "otpSession \<Rightarrow> otpSession" where
  "resetVisibility s =
     s\<lparr>loaderDisplay := ''none'', resendButtonDisplay := ''none'',
       limitMessageDisplay := ''none''\<rparr>"

text \<open>
  The timer. \<open>activeIntervals\<close> are the handles that \<^verbatim>\<open>window.setInterval\<close> has returned
  and \<^verbatim>\<open>window.clearInterval\<close> has not yet cancelled; \<open>remaining\<close> is the variable of that
  name in startTimer, which the guard on \<open>timerStarted\<close> lets be created at most once.
\<close>

definition tick :: "otpSession \<Rightarrow> otpSession" where
  "tick s =
     (let s1 = s\<lparr>timerText := '' '' @ showInt (remaining s) @ ''s''\<rparr>;
          s2 = (if remaining s1 \<le> 0
                then setVisibility ''ready''
                       (s1\<lparr>activeIntervals :=
                             (case timerId s1 of
                                None \<Rightarrow> activeIntervals s1
                              | Some t \<Rightarrow> removeAll t (activeIntervals s1)),
                           timerId := None\<rparr>)
                else s1)
      in s2\<lparr>remaining := remaining s2 - 1\<rparr>)"

definition startTimer :: "int \<Rightarrow> otpSession \<Rightarrow> otpSession" where
  "startTimer duration s =
     (if timerStarted s then s
      else (let s1 = s\<lparr>timerStarted := True, remaining := duration,
                        loaderText := resendLoaderLabel\<rparr>;
                s2 = tick (setVisibility ''loading'' s1)
            in s2\<lparr>timerId := Some (nextIntervalId s2),
                  activeIntervals := nextIntervalId s2 # activeIntervals s2,
                  nextIntervalId := nextIntervalId s2 + 1\<rparr>))"

text \<open>The browser runs the callback of an interval that is still active.\<close>

definition intervalFires :: "nat \<Rightarrow> page \<Rightarrow> page" where
  "intervalFires t pg =
     (case otp pg of
        None \<Rightarrow> pg
      | Some s \<Rightarrow> if t \<in> set (activeIntervals s) then pg\<lparr>otp := Some (tick s)\<rparr> else pg)"

definition mobileInput :: "form \<Rightarrow> control option" where
  "mobileInput fm = find (\<lambda>c. tagName c = ''input'' \<and> cname c = ''mobile'') (elements fm)"

definition isDigit :: "char \<Rightarrow> bool" where
  "isDigit c = (c \<in> set ''0123456789'')"

definition maybeStartTimer :: "page \<Rightarrow> page" where
  "maybeStartTimer pg =
     (case mobileInput (pform pg) of
        None \<Rightarrow> pg
      | Some m \<Rightarrow>
          (let digitsOnly = filter isDigit (cvalue m)
           in if length digitsOnly \<ge> 10
              then pg\<lparr>otp := map_option (startTimer resendTimerSeconds) (otp pg)\<rparr>
              else pg))"

text \<open>The click listener of the resend button.\<close>

definition resendClick :: "page \<Rightarrow> page" where
  "resendClick pg =
     (case otp pg of
        None \<Rightarrow> pg
      | Some s \<Rightarrow>
          (let s1 = s\<lparr>resendCount := resendCount s + 1\<rparr>
           in if resendCount s1 > resendLimit
              then pg\<lparr>otp := Some (setVisibility ''limit'' s1)\<rparr>
              else pg\<lparr>dispatched := dispatched pg @ [''otp:resend''],
                      otp := Some (startTimer resendTimerSeconds s1)\<rparr>))"

text \<open>
  What the browser reports at a submit: \<^verbatim>\<open>otpInput.checkValidity()\<close>,
  \<^verbatim>\<open>form.reportValidity()\<close> and the element that \<^verbatim>\<open>:invalid:not(fieldset)\<close> selects.
\<close>

record validity =
  otpValid :: bool
  formValid :: bool
  firstInvalid :: "(nat \<times> nat) option"

fun findIndex :: "('a \<Rightarrow> bool) \<Rightarrow> 'a list \<Rightarrow> nat option" where
  "findIndex P [] = None"
| "findIndex P (x # xs) = (if P x then Some 0 else map_option Suc (findIndex P xs))"

text \<open>
  The OTP input, \<^verbatim>\<open>input[name="..."]\<close>: the first input of that name below the wrapper
  that initOtpBehavior found it in, as the \<open>k\<close>-th control of that wrapper.
\<close>

definition otpInputIndex :: "page \<Rightarrow> (nat \<times> nat) option" where
  "otpInputIndex pg =
     (case otp pg of
        None \<Rightarrow> None
      | Some s \<Rightarrow>
          (case wrapperAt (pform pg) (otpField s) of
             None \<Rightarrow> None
           | Some w \<Rightarrow>
               map_option (\<lambda>k. (otpField s, k))
                 (findIndex (\<lambda>c. tagName c = ''input'' \<and> cname c = otpInputName s)
                    (controls w))))"

definition controlAt :: "form \<Rightarrow> nat \<times> nat \<Rightarrow> control option" where
  "controlAt fm r =
     (case wrapperAt fm (fst r) of
        None \<Rightarrow> None
      | Some w \<Rightarrow> if snd r < length (controls w) then Some (controls w ! snd r) else None)"

text \<open>The first submit listener: it counts the submits with an invalid OTP input.\<close>

definition otpSubmitCount :: "validity \<Rightarrow> page \<Rightarrow> page" where
  "otpSubmitCount v pg =
     (case otp pg of
        None \<Rightarrow> pg
      | Some s \<Rightarrow>
          if \<not> otpValid v
          then (let s1 = s\<lparr>otpErrorCount := otpErrorCount s + 1\<rparr>;
                    pg1 = pg\<lparr>otp := Some s1\<rparr>
                in if otpErrorThreshold \<noteq> 0 \<and> otpErrorCount s1 \<ge> otpErrorThreshold
                      \<and> otpErrorRedirect \<noteq> []
                   then pg1\<lparr>href := Some otpErrorRedirect\<rparr>
                   else pg1)
          else pg)"

definition markInvalid :: "nat \<Rightarrow> wrapper \<Rightarrow> wrapper" where
  "markInvalid k w =
     (if k < length (controls w)
      then w\<lparr>controls := (controls w)[k := (controls w ! k)\<lparr>ariaInvalid := Some ''true''\<rparr>]\<rparr>
      else w)"

text \<open>
  The second submit listener. \<^verbatim>\<open>preventDefault\<close> leaves the page where it is unless the
  listener itself assigns \<^verbatim>\<open>window.location.href\<close>.
\<close>

definition otpSubmitVerify :: "validity \<Rightarrow> page \<Rightarrow> page" where
  "otpSubmitVerify v pg =
     (case otp pg of
        None \<Rightarrow> pg
      | Some s \<Rightarrow>
          (let pg1 = pg\<lparr>otp := Some (s\<lparr>otpRetryDisplay := ''none''\<rparr>)\<rparr>
           in if \<not> formValid v
              then (case firstInvalid v of
                      None \<Rightarrow> pg1
                    | Some r \<Rightarrow>
                        pg1\<lparr>pform := atWrapper (markInvalid (snd r)) (pform pg1) (fst r),
                            focused := Some r\<rparr>)
              else (case otpInputIndex pg1 of
                      None \<Rightarrow> pg1
                    | Some r \<Rightarrow>
                        (case controlAt (pform pg1) r of
                           None \<Rightarrow> pg1
                         | Some otpInput \<Rightarrow>
                             if cvalue otpInput = ''12345''
                             then pg1\<lparr>href := Some otpSuccessRedirect\<rparr>
                             else pg1\<lparr>otp := Some (s\<lparr>otpRetryDisplay := ''block''\<rparr>),
                                     focused := Some r\<rparr>))))"

fun runHandler :: "validity \<Rightarrow> page \<Rightarrow> handler \<Rightarrow> page" where
  "runHandler v pg MaybeStartTimer = maybeStartTimer pg"
| "runHandler v pg ResendClick = resendClick pg"
| "runHandler v pg OtpSubmitCount = otpSubmitCount v pg"
| "runHandler v pg OtpSubmitVerify = otpSubmitVerify v pg"

text \<open>An event runs the listeners attached for it, in the order of their attachment.\<close>

definition fire :: "eventKey \<Rightarrow> validity \<Rightarrow> page \<Rightarrow> page" where
  "fire ev v pg =
     foldl (runHandler v) pg (map snd (filter (\<lambda>l. fst l = ev) (listeners pg)))"

fun findChild :: "(control \<Rightarrow> bool) \<Rightarrow> child list \<Rightarrow> nat option" where
  "findChild P [] = None"
| "findChild P (c # cs) =
     (if list_ex P (listed c) then Some 0 else map_option Suc (findChild P cs))"

definition resendButton :: control where
  "resendButton =
     \<lparr>tagName = ''button'', ctype = ''button'', cid = [], cname = [], cvalue = [],
      checked = False, disabled = False, required = False, tabindex = None,
      originalRequired = None, ariaInvalid = None\<rparr>"

definition newSession :: "nat \<Rightarrow> string \<Rightarrow> string \<Rightarrow> otpSession" where
  "newSession j otpName resendLimitMessage =
     \<lparr>otpField = j, otpInputName = otpName, limitMessageText = resendLimitMessage,
      loaderDisplay = [], resendButtonDisplay = [], limitMessageDisplay = [], loaderText = [], timerText = [],
      otpRetryDisplay = ''none'', resendCount = 0, timerId = None, activeIntervals = [],
      nextIntervalId = 1, timerStarted = False, remaining = 0, otpErrorCount = 0\<rparr>"

text \<open>
  initOtpBehavior. The two early returns come first; after them the resend button joins
  the controls of the OTP wrapper, the session holds the other elements created, and the
  listeners are attached. toCamelCase is imported from utils/toCamelCase and its code is
  not available: it is a parameter.
\<close>

definition initOtpBehavior :: "(string \<Rightarrow> string) \<Rightarrow> FieldConfig list \<Rightarrow> page \<Rightarrow> page" where
  "initOtpBehavior toCamelCase fieldList pg =
     (let resendLimitMessage =
            getFormConfigValue fieldList ''resendLimitMessage'' ''Resend OTP limit exhausted.''
      in case findChild (\<lambda>c. tagName c = ''input'' \<and> cname c = toCamelCase ''otp'')
                (children (pform pg)) of
           None \<Rightarrow> pg
         | Some j \<Rightarrow>
             (case wrapperAt (pform pg) j of
                None \<Rightarrow> pg
              | Some otpWrapper \<Rightarrow>
                  (let pg1 = pg\<lparr>pform := atWrapper
                                  (\<lambda>w. w\<lparr>controls := controls w @ [resendButton]\<rparr>)
                                  (pform pg) j,
                                otp := Some (resetVisibility
                                               (newSession j (toCamelCase ''otp'')
                                                  resendLimitMessage))\<rparr>;
                       pg2 = (case mobileInput (pform pg) of
                                Some m \<Rightarrow>
                                  maybeStartTimer
                                    (pg1\<lparr>listeners := listeners pg1
                                            @ [(MobileInputEvent, MaybeStartTimer)]\<rparr>)
                              | None \<Rightarrow>
                                  pg1\<lparr>otp := map_option (startTimer resendTimerSeconds)
                                                (otp pg1)\<rparr>)
                   in pg2\<lparr>listeners := listeners pg2
                            @ [(ResendClickEvent, ResendClick),
                               (FormSubmitEvent, OtpSubmitCount),
                               (FormSubmitEvent, OtpSubmitVerify)]\<rparr>)))"

section \<open>The field builder\<close>

text \<open>
  What buildField returns is a tree of elements. An element has its tag, its attributes
  in the order of their first assignment, and its child nodes. A property that the
  builders assign and that has no content attribute of its own (\<^verbatim>\<open>value\<close>, \<^verbatim>\<open>checked\<close>,
  \<^verbatim>\<open>selected\<close>) is kept in the same list under its own name.
\<close>

datatype node = Element string "(string \<times> string) list" "node list" | Text string

fun assign :: "string \<Rightarrow> string \<Rightarrow> (string \<times> string) list \<Rightarrow> (string \<times> string) list" where
  "assign k v [] = [(k, v)]"
| "assign k v (a # as) = (if fst a = k then (k, v) # as else a # assign k v as)"

fun setAttribute :: "string \<Rightarrow> string \<Rightarrow> node \<Rightarrow> node" where
  "setAttribute k v (Element t as ns) = Element t (assign k v as) ns"
| "setAttribute k v (Text s) = Text s"

fun attribute :: "string \<Rightarrow> node \<Rightarrow> string option" where
  "attribute k (Element t as ns) = map_of as k"
| "attribute k (Text s) = None"

fun childNodes :: "node \<Rightarrow> node list" where
  "childNodes (Element t as ns) = ns"
| "childNodes (Text s) = []"

fun append :: "node list \<Rightarrow> node \<Rightarrow> node" where
  "append new (Element t as ns) = Element t as (ns @ new)"
| "append new (Text s) = Text s"

fun prepend :: "node list \<Rightarrow> node \<Rightarrow> node" where
  "prepend new (Element t as ns) = Element t as (new @ ns)"
| "prepend new (Text s) = Text s"

text \<open>\<^verbatim>\<open>el.textContent = s\<close>: one text node, none for the empty string.\<close>

fun setTextContent :: "string \<Rightarrow> node \<Rightarrow> node" where
  "setTextContent s (Element t as ns) = Element t as (if s = [] then [] else [Text s])"
| "setTextContent s (Text u) = Text s"

text \<open>The id of an element as the property reads it: empty when there is no attribute.\<close>

definition idOf :: "node \<Rightarrow> string" where
  "idOf n = (case attribute ''id'' n of None \<Rightarrow> [] | Some v \<Rightarrow> v)"

definition createElement :: "string \<Rightarrow> string \<Rightarrow> node" where
  "createElement tag className =
     (if className \<noteq> [] then Element tag [(''class'', className)] [] else Element tag [] [])"

text \<open>An optional string inside a template literal.\<close>

definition interpolate :: "string option \<Rightarrow> string" where
  "interpolate x = (case x of None \<Rightarrow> ''undefined'' | Some s \<Rightarrow> s)"

text \<open>
  \<^verbatim>\<open>s.split(c)\<close> for a one-character separator, and \<^verbatim>\<open>s.trim()\<close>, which strips white
  space and line terminators: among the code units below 256 these are the tab, the line
  feed, the vertical tab, the form feed, the carriage return, the space and the no-break
  space.
\<close>

fun split :: "char \<Rightarrow> string \<Rightarrow> string list" where
  "split sep [] = [[]]"
| "split sep (c # cs) =
     (if c = sep then [] # split sep cs
      else (case split sep cs of [] \<Rightarrow> [[c]] | p # ps \<Rightarrow> (c # p) # ps))"

definition isSpace :: "char \<Rightarrow> bool" where
  "isSpace c =
     (c \<in> set [CHR '' '', CHR 0x09, CHR 0x0A, CHR 0x0B, CHR 0x0C, CHR 0x0D, CHR 0xA0])"

definition trim :: "string \<Rightarrow> string" where
  "trim s = rev (dropWhile isSpace (rev (dropWhile isSpace s)))"

text \<open>
  generateId, with toCamelCase as a parameter.
\<close>

definition generateId :: "(string \<Rightarrow> string) \<Rightarrow> string \<Rightarrow> string option \<Rightarrow> string" where
  "generateId toCamelCase name option =
     (let id = toCamelCase name
      in if truthy option then id @ ''-'' @ toCamelCase (the option) else id)"

definition writeHelpText :: "string \<Rightarrow> string \<Rightarrow> node" where
  "writeHelpText text inputId =
     setAttribute ''id'' (inputId @ ''-help'')
       (setTextContent text (createElement ''p'' ''field-help-text''))"

definition buildLabel :: "string \<Rightarrow> string \<Rightarrow> string option \<Rightarrow> bool \<Rightarrow> node" where
  "buildLabel text type forId req =
     (let label = setTextContent text (createElement type []);
          label1 = (if truthy forId \<and> type = ''label''
                    then setAttribute ''for'' (the forId) label else label)
      in if req then setAttribute ''data-required'' ''true'' label1 else label1)"

text \<open>Assigning a property only when the descriptor has a truthy value for it.\<close>

definition setIf :: "string \<Rightarrow> string option \<Rightarrow> node \<Rightarrow> node" where
  "setIf k x n = (if truthy x then setAttribute k (the x) n else n)"

definition setRequired :: "string option \<Rightarrow> node \<Rightarrow> node" where
  "setRequired req n = (if req = Some ''true'' then setAttribute ''required'' [] n else n)"

text \<open>
  buildInput. The setter of \<^verbatim>\<open>maxLength\<close> takes \<^verbatim>\<open>Number(maxlength)\<close>; what the browser
  makes of it is the parameter \<open>maxLengthAttr\<close>: the content attribute written, or \<open>None\<close>
  when the number is negative and the setter raises IndexSizeError.
\<close>

datatype error = IndexSizeError

definition buildInput ::
  "(string \<Rightarrow> string) \<Rightarrow> (string \<Rightarrow> string option) \<Rightarrow> FieldConfig \<Rightarrow> error + node" where
  "buildInput toCamelCase maxLengthAttr field =
     (let input = createElement ''input'' [];
          input1 = setAttribute ''type'' (orElse (f_type field) ''text'') input;
          input2 = setAttribute ''id''
                     (generateId toCamelCase (orElse (f_field field) ''field'') None) input1;
          input3 = setAttribute ''name'' (idOf input2) input2;
          input4 = setRequired (f_required field) input3;
          input5 = setIf ''value'' (f_default field) input4;
          input6 = setIf ''placeholder'' (f_placeholder field) input5;
          input7 = setIf ''pattern'' (f_pattern field) input6
      in if truthy (f_maxlength field)
         then (case maxLengthAttr (the (f_maxlength field)) of
                 None \<Rightarrow> Inl IndexSizeError
               | Some m \<Rightarrow>
                   Inr (setIf ''inputmode'' (f_inputmode field)
                          (setAttribute ''maxlength'' m input7)))
         else Inr (setIf ''inputmode'' (f_inputmode field) input7))"

definition buildTextArea :: "(string \<Rightarrow> string) \<Rightarrow> FieldConfig \<Rightarrow> node" where
  "buildTextArea toCamelCase field =
     (let textarea = createElement ''textarea'' [];
          textarea1 = setAttribute ''id''
                        (generateId toCamelCase (orElse (f_field field) ''field'') None)
                        textarea;
          textarea2 = setAttribute ''name'' (idOf textarea1) textarea1;
          textarea3 = setRequired (f_required field) textarea2;
          textarea4 = setAttribute ''rows'' ''5'' textarea3;
          textarea5 = setIf ''value'' (f_default field) textarea4
      in setIf ''placeholder'' (f_placeholder field) textarea5)"

definition buildOptionInput :: "(string \<Rightarrow> string) \<Rightarrow> FieldConfig \<Rightarrow> string \<Rightarrow> node" where
  "buildOptionInput toCamelCase field option =
     (let id = generateId toCamelCase (orElse (f_field field) ''field'') (Some option);
          input = createElement ''input'' [];
          input1 = setAttribute ''type'' (orElse (f_type field) ''text'') input;
          input2 = setAttribute ''id'' id input1;
          input3 = setAttribute ''name''
                     (generateId toCamelCase (orElse (f_field field) ''field'') None) input2;
          input4 = setAttribute ''value'' option input3;
          input5 = (if Some option = f_default field
                    then setAttribute ''checked'' [] input4 else input4)
      in setRequired (f_required field) input5)"

text \<open>The two data attributes of a controlled field.\<close>

definition tagControlled :: "string option \<Rightarrow> node \<Rightarrow> node" where
  "tagControlled controlled n =
     (if truthy controlled
      then setAttribute ''data-condition'' (the controlled)
             (setAttribute ''data-controller'' (hd (split CHR ''-'' (the controlled))) n)
      else n)"

definition buildOption :: "(string \<Rightarrow> string) \<Rightarrow> FieldConfig \<Rightarrow> string \<Rightarrow> node" where
  "buildOption toCamelCase field opt =
     (let option = trim opt;
          input = buildOptionInput toCamelCase field option;
          span = createElement ''span'' [];
          labelEl = buildLabel option ''label'' (Some (idOf input)) False
      in prepend [input, span] labelEl)"

definition buildOptions ::
  "(string \<Rightarrow> string) \<Rightarrow> FieldConfig \<Rightarrow> string option \<Rightarrow> node option" where
  "buildOptions toCamelCase field controlled =
     (if \<not> truthy (f_options field) then None
      else (let fieldset = createElement ''fieldset''
                             (''form-field '' @ interpolate (f_type field) @ ''-field'');
                fieldset1 = tagControlled controlled fieldset;
                fieldset2 = append [buildLabel (orElse (f_label field) []) ''legend'' None
                                      (f_required field = Some ''true'')] fieldset1
            in Some (append (map (buildOption toCamelCase field)
                               (split CHR '','' (the (f_options field)))) fieldset2)))"

text \<open>
  buildSelect. \<open>isUrl\<close> tells whether \<^verbatim>\<open>new URL(options)\<close> succeeds; then the options are
  fetched and appended later, and the select is returned without them.
\<close>

definition buildSelectOption :: "string \<Rightarrow> node" where
  "buildSelectOption opt =
     (let option = trim opt
      in setTextContent option (setAttribute ''value'' option (createElement ''option'' [])))"

definition buildSelect ::
  "(string \<Rightarrow> string) \<Rightarrow> (string \<Rightarrow> bool) \<Rightarrow> FieldConfig \<Rightarrow> string option \<Rightarrow> node option" where
  "buildSelect toCamelCase isUrl field controlled =
     (if \<not> truthy (f_options field) then None
      else (let wrapper = createElement ''div''
                            (''form-field '' @ orElse (f_type field) ''text'' @ ''-field'');
                wrapper1 = tagControlled controlled wrapper;
                wrapper2 = append
                   [buildLabel (orElse (f_label field) []) ''label''
                      (Some (generateId toCamelCase (orElse (f_field field) ''field'') None))
                      (f_required field = Some ''true'')] wrapper1;
                select = createElement ''select'' [];
                select1 = setAttribute ''id''
                            (generateId toCamelCase (orElse (f_field field) ''field'') None)
                            select;
                select2 = setAttribute ''name'' (idOf select1) select1;
                select3 = setRequired (f_required field) select2;
                select4 = (if truthy (f_placeholder field)
                           then append
                                  [setAttribute ''selected'' []
                                     (setAttribute ''disabled'' []
                                        (setTextContent (the (f_placeholder field))
                                           (setAttribute ''value'' []
                                              (createElement ''option'' []))))] select3
                           else select3);
                select5 = (if isUrl (the (f_options field)) then select4
                           else append (map buildSelectOption
                                          (split CHR '','' (the (f_options field)))) select4)
            in Some (append [select5] wrapper2)))"

definition buildToggle :: "(string \<Rightarrow> string) \<Rightarrow> FieldConfig \<Rightarrow> string option \<Rightarrow> node" where
  "buildToggle toCamelCase field controlled =
     (let wrapper = tagControlled controlled (createElement ''div'' ''form-field toggle-field'');
          input = buildOptionInput toCamelCase (field\<lparr>f_type := Some ''checkbox''\<rparr>)
                    (orElse (f_default field) ''true'');
          input1 = setAttribute ''role'' ''switch'' input;
          input2 = setAttribute ''aria-checked''
                     (jsString (attribute ''checked'' input1 \<noteq> None)) input1;
          span = createElement ''span'' [];
          labelEl = buildLabel (orElse (f_label field) []) ''label'' (Some (idOf input2))
                      (f_required field = Some ''true'')
      in append [prepend [input2, span] labelEl] wrapper)"

definition buildButton :: "FieldConfig \<Rightarrow> node" where
  "buildButton field =
     (let button = setAttribute ''class'' ''button'' (createElement ''button'' []);
          button1 = setAttribute ''type'' (orElse (f_type field) ''button'') button;
          button2 = setTextContent (orElse (f_label field) []) button1
      in if f_type field = Some ''reset''
         then setAttribute ''class'' ''button secondary'' button2 else button2)"

text \<open>
  \<^verbatim>\<open>wrapper.insertBefore(input, wrapper.firstChild.nextSibling)\<close> when there is a first
  child, \<^verbatim>\<open>wrapper.append(input)\<close> when there is none.
\<close>

fun insertAfterFirst :: "node \<Rightarrow> node \<Rightarrow> node" where
  "insertAfterFirst new (Element t as []) = Element t as [new]"
| "insertAfterFirst new (Element t as (n # ns)) = Element t as (n # new # ns)"
| "insertAfterFirst new (Text s) = Text s"

definition buildField ::
  "(string \<Rightarrow> string) \<Rightarrow> (string \<Rightarrow> string option) \<Rightarrow> (string \<Rightarrow> bool) \<Rightarrow> FieldConfig
     \<Rightarrow> error + node" where
  "buildField toCamelCase maxLengthAttr isUrl field =
     (let controlled = (if truthy (f_conditional field) then f_conditional field else None);
          safeFieldName = orElse (f_field field) ''field''
      in if f_type field = Some ''hidden'' then buildInput toCamelCase maxLengthAttr field
         else if f_type field = Some ''submit'' \<or> f_type field = Some ''reset''
         then Inr (buildButton field)
         else if f_type field = Some ''radio'' \<or> f_type field = Some ''checkbox''
         then (case buildOptions toCamelCase field controlled of
                 None \<Rightarrow> Inr (createElement ''div'' [])
               | Some fieldset \<Rightarrow>
                   if truthy (f_help field)
                   then Inr (append [writeHelpText (the (f_help field))
                                       (generateId toCamelCase safeFieldName None)] fieldset)
                   else Inr fieldset)
         else if f_type field = Some ''toggle''
         then (let toggle = buildToggle toCamelCase field controlled
               in if truthy (f_help field)
                  then Inr (append [writeHelpText (the (f_help field))
                                      (generateId toCamelCase safeFieldName None)] toggle)
                  else Inr toggle)
         else if f_type field = Some ''select''
         then (case buildSelect toCamelCase isUrl field controlled of
                 None \<Rightarrow> Inr (createElement ''div'' [])
               | Some select \<Rightarrow>
                   if truthy (f_help field)
                   then Inr (append [writeHelpText (the (f_help field))
                                       (generateId toCamelCase safeFieldName None)] select)
                   else Inr select)
         else (let wrapper = tagControlled controlled
                               (createElement ''div''
                                  (''form-field '' @ interpolate (f_type field) @ ''-field''));
                   inputId = generateId toCamelCase safeFieldName None;
                   wrapper1 = append [buildLabel (orElse (f_label field) []) ''label''
                                        (Some inputId) (f_required field = Some ''true'')]
                                wrapper;
                   helpText = (if truthy (f_help field)
                               then Some (writeHelpText (the (f_help field)) inputId)
                               else None);
                   wrapper2 = (case helpText of
                                 None \<Rightarrow> wrapper1
                               | Some h \<Rightarrow> append [h] wrapper1)
               in case (if f_type field = Some ''textarea''
                        then Inr (buildTextArea toCamelCase field)
                        else buildInput toCamelCase maxLengthAttr field) of
                    Inl e \<Rightarrow> Inl e
                  | Inr input \<Rightarrow>
                      (let input1 = (case helpText of
                                       None \<Rightarrow> input
                                     | Some h \<Rightarrow> setAttribute ''aria-describedby'' (idOf h) input)
                       in if f_type field = Some ''textarea''
                          then Inr (append [input1] wrapper2)
                          else Inr (insertAfterFirst input1 wrapper2))))"

section \<open>Auxiliary notions for the statements\<close>

text \<open>
  Modelled from the spec: the function toClassName of utils/toClassName, whose code is
  not available. The spec describes it as a class-name-safe normalization: lower-casing,
  and the collapse of whitespace and punctuation. Here the
  letters A to Z are lower-cased and every maximal run of characters other than these
  letters and the digits becomes one hyphen. The functions above
  take the normalization as a parameter; this instance serves where a concrete one is
  needed.
\<close>

definition lowerChar :: "char \<Rightarrow> char" where
  "lowerChar c =
     (case map_of (zip ''ABCDEFGHIJKLMNOPQRSTUVWXYZ'' ''abcdefghijklmnopqrstuvwxyz'') c of
        None \<Rightarrow> c
      | Some l \<Rightarrow> l)"

definition isAlnum :: "char \<Rightarrow> bool" where
  "isAlnum c = (c \<in> set ''abcdefghijklmnopqrstuvwxyzABCDEFGHIJKLMNOPQRSTUVWXYZ0123456789'')"

fun collapse :: "bool \<Rightarrow> string \<Rightarrow> string" where
  "collapse inRun [] = []"
| "collapse inRun (c # cs) =
     (if isAlnum c then c # collapse False cs
      else if inRun then collapse True cs
      else CHR ''-'' # collapse True cs)"

definition toClassNameSpec :: "string \<Rightarrow> string" where
  "toClassNameSpec name = collapse False (map lowerChar name)"

text \<open>
  A run of change events on the form, each handled by toggleConditional, and what is read
  off the wrapper at position \<open>j\<close> and its control.
\<close>

definition changes ::
  "(string \<Rightarrow> string) \<Rightarrow> controllerConfig \<Rightarrow> form \<Rightarrow> event list \<Rightarrow> form" where
  "changes toClassName controllerConfig fm es =
     foldl (\<lambda>f e. toggleConditional toClassName e controllerConfig f) fm es"

definition requiredAt :: "form \<Rightarrow> nat \<Rightarrow> bool" where
  "requiredAt fm j = (case inputAt fm j of None \<Rightarrow> False | Some i \<Rightarrow> required i)"

definition originalRequiredAt :: "form \<Rightarrow> nat \<Rightarrow> string option" where
  "originalRequiredAt fm j = (case inputAt fm j of None \<Rightarrow> None | Some i \<Rightarrow> originalRequired i)"

definition ariaHiddenAt :: "form \<Rightarrow> nat \<Rightarrow> string option" where
  "ariaHiddenAt fm j = (case wrapperAt fm j of None \<Rightarrow> None | Some w \<Rightarrow> ariaHidden w)"

definition conditionAt :: "form \<Rightarrow> nat \<Rightarrow> string option" where
  "conditionAt fm j = (case wrapperAt fm j of None \<Rightarrow> None | Some w \<Rightarrow> dataCondition w)"

text \<open>
  The controller maps that enableConditionals can build: the keys are distinct (it is a
  Map), no control is listed twice (every tagged element is visited once and has one
  controller), and every reference is to a wrapper that has a control.
\<close>

definition validConfig :: "controllerConfig \<Rightarrow> form \<Rightarrow> bool" where
  "validConfig controllerConfig fm =
     (distinct (map fst controllerConfig)
      \<and> distinct (concat (map snd controllerConfig))
      \<and> list_all (\<lambda>j. inputAt fm j \<noteq> None) (concat (map snd controllerConfig)))"

text \<open>
  What the selectors of initConditionals and the loop of generatePayload read of a listed
  element: tag, type, name, value, checkedness and the \<^verbatim>\<open>disabled\<close> property.
\<close>

definition shape :: "control \<Rightarrow> string \<times> string \<times> string \<times> string \<times> bool \<times> bool" where
  "shape c = (tagName c, ctype c, cname c, cvalue c, checked c, disabled c)"

text \<open>
  The Map that the first loop of enableConditionals builds: it visits the elements with
  a \<^verbatim>\<open>data-controller\<close> attribute in tree order, skips those without a control and
  those whose controller name is empty, and pushes the control onto the list of its
  controller, a new controller going to the end of the Map. (The ARIA attributes that
  the same loop sets are read by nothing here and are not part of the model.)
\<close>

fun addControlled :: "string \<Rightarrow> nat \<Rightarrow> controllerConfig \<Rightarrow> controllerConfig" where
  "addControlled K j [] = [(K, [j])]"
| "addControlled K j (entry # cfg) =
     (if fst entry = K then (K, snd entry @ [j]) # cfg else entry # addControlled K j cfg)"

definition discoverStep :: "form \<Rightarrow> controllerConfig \<Rightarrow> nat \<Rightarrow> controllerConfig" where
  "discoverStep fm controllerConfig j =
     (case wrapperAt fm j of
        None \<Rightarrow> controllerConfig
      | Some c \<Rightarrow>
          if dataController c = None then controllerConfig
          else if firstControl c = None then controllerConfig
          else if \<not> truthy (dataController c) then controllerConfig
          else addControlled (the (dataController c)) j controllerConfig)"

definition controllerConfigOf :: "form \<Rightarrow> controllerConfig" where
  "controllerConfigOf fm = foldl (discoverStep fm) [] [0..<length (children fm)]"

text \<open>
  The loop body that initConditionals applies to the wrappers of a controller whose value
  it found to be \<open>cv\<close>.
\<close>

definition initStep :: "(string \<Rightarrow> string) \<Rightarrow> string option \<Rightarrow> wrapper \<Rightarrow> wrapper" where
  "initStep toClassName cv = (if truthy cv then initField toClassName (the cv) else hideField)"

text \<open>
  The state of a controlled field whose control was required at the outset: the snapshot
  is stored, the condition string is still \<open>c\<close>, and the control is required exactly when
  the wrapper is shown.
\<close>

definition tracksVisibility :: "string option \<Rightarrow> wrapper \<Rightarrow> bool" where
  "tracksVisibility c w =
     (dataCondition w = c
      \<and> (case firstControl w of
            None \<Rightarrow> False
          | Some i \<Rightarrow> originalRequired i = Some ''true''
                      \<and> (required i \<longleftrightarrow> ariaHidden w = Some ''false'')))"

text \<open>
  The example of the spec: a radio group \<^verbatim>\<open>plan\<close> with the options Basic and Pro, of which
  \<open>sel\<close> is checked, and a required text field \<^verbatim>\<open>company\<close> with the conditional \<open>cond\<close>;
  with it the controller map that enableConditionals builds for this form.
\<close>

definition newControl :: "string \<Rightarrow> string \<Rightarrow> string \<Rightarrow> string \<Rightarrow> control" where
  "newControl tag type name v =
     \<lparr>tagName = tag, ctype = type, cid = name, cname = name, cvalue = v, checked = False,
      disabled = False, required = False, tabindex = None, originalRequired = None,
      ariaInvalid = None\<rparr>"

definition planForm :: "string \<Rightarrow> string \<Rightarrow> form" where
  "planForm sel cond =
     \<lparr>children =
        [Wrapper \<lparr>fieldsetElement = Some (newControl ''fieldset'' ''fieldset'' [] []),
                  dataController = None, dataCondition = None, ariaHidden = None,
                  controls =
                    [(newControl ''input'' ''radio'' ''plan'' ''Basic'')
                       \<lparr>checked := (sel = ''Basic'')\<rparr>,
                     (newControl ''input'' ''radio'' ''plan'' ''Pro'')
                       \<lparr>checked := (sel = ''Pro'')\<rparr>]\<rparr>,
         Wrapper \<lparr>fieldsetElement = None,
                  dataController = Some ''plan'', dataCondition = Some cond,
                  ariaHidden = None,
                  controls =
                    [(newControl ''input'' ''text'' ''company'' ''Acme'')
                       \<lparr>required := True\<rparr>]\<rparr>],
      dataAction = None, dataConfirmation = None\<rparr>"

definition planConfig :: controllerConfig where
  "planConfig = [(''plan'', [1])]"

text \<open>
  The same with a select as the controller, whose current value is \<open>v\<close> (the empty string
  while its placeholder option is the selected one).
\<close>

definition selectForm :: "string \<Rightarrow> string \<Rightarrow> form" where
  "selectForm v cond =
     \<lparr>children =
        [Wrapper \<lparr>fieldsetElement = None,
                  dataController = None, dataCondition = None, ariaHidden = None,
                  controls = [newControl ''select'' ''select-one'' ''plan'' v]\<rparr>,
         Wrapper \<lparr>fieldsetElement = None,
                  dataController = Some ''plan'', dataCondition = Some cond,
                  ariaHidden = None,
                  controls =
                    [(newControl ''input'' ''text'' ''company'' ''Acme'')
                       \<lparr>required := True\<rparr>]\<rparr>],
      dataAction = None, dataConfirmation = None\<rparr>"

text \<open>
  A group of checkboxes that share the name \<open>name\<close>, given by their values and
  checkedness in tree order, and \<^verbatim>\<open>values.join(',')\<close>.
\<close>

definition checkboxForm :: "string \<Rightarrow> (string \<times> bool) list \<Rightarrow> form" where
  "checkboxForm name boxes =
     \<lparr>children =
        [Wrapper \<lparr>fieldsetElement = Some (newControl ''fieldset'' ''fieldset'' [] []),
                  dataController = None, dataCondition = None, ariaHidden = None,
                  controls =
                    map (\<lambda>b. (newControl ''input'' ''checkbox'' name (fst b))
                                \<lparr>checked := snd b\<rparr>) boxes\<rparr>],
      dataAction = None, dataConfirmation = None\<rparr>"

fun joinComma :: "string list \<Rightarrow> string" where
  "joinComma [] = []"
| "joinComma [v] = v"
| "joinComma (v # w # vs) = v @ '','' @ joinComma (w # vs)"

text \<open>
  An instance of \<open>inheritedText\<close> for the examples: the text that V8 gives for the value
  inherited under each of the names of \<open>objectPrototypeNames\<close>.
\<close>

definition nativeCodeText :: "string \<Rightarrow> string" where
  "nativeCodeText name =
     (if name = ''__proto__'' then ''[object Object]''
      else if name = ''constructor'' then ''function Object() { [native code] }''
      else ''function '' @ name @ ''() { [native code] }'')"

text \<open>
  The plan group of \<open>planForm\<close> with nothing or \<open>sel\<close> checked, followed by a required
  radio group \<^verbatim>\<open>tier\<close> with the options A and B and the conditional \<^verbatim>\<open>plan-pro\<close>:
  buildOptionInput gives \<^verbatim>\<open>required\<close> to each of its options. \<open>controlsAt\<close> reads the
  controls of the wrapper at position \<open>j\<close>.
\<close>

definition tierForm :: "string \<Rightarrow> form" where
  "tierForm sel =
     \<lparr>children =
        [Wrapper \<lparr>fieldsetElement = Some (newControl ''fieldset'' ''fieldset'' [] []),
                  dataController = None, dataCondition = None, ariaHidden = None,
                  controls =
                    [(newControl ''input'' ''radio'' ''plan'' ''Basic'')
                       \<lparr>checked := (sel = ''Basic'')\<rparr>,
                     (newControl ''input'' ''radio'' ''plan'' ''Pro'')
                       \<lparr>checked := (sel = ''Pro'')\<rparr>]\<rparr>,
         Wrapper \<lparr>fieldsetElement = Some (newControl ''fieldset'' ''fieldset'' [] []),
                  dataController = Some ''plan'', dataCondition = Some ''plan-pro'',
                  ariaHidden = None,
                  controls =
                    [(newControl ''input'' ''radio'' ''tier'' ''A'')
                       \<lparr>cid := ''tier-a'', required := True\<rparr>,
                     (newControl ''input'' ''radio'' ''tier'' ''B'')
                       \<lparr>cid := ''tier-b'', required := True\<rparr>]\<rparr>],
      dataAction = None, dataConfirmation = None\<rparr>"

definition controlsAt :: "form \<Rightarrow> nat \<Rightarrow> control list" where
  "controlsAt fm j = (case wrapperAt fm j of None \<Rightarrow> [] | Some w \<Rightarrow> controls w)"

text \<open>A page that holds the form \<open>fm\<close> and nothing of the OTP sub-flow yet.\<close>

definition newPage :: "form \<Rightarrow> page" where
  "newPage fm =
     \<lparr>pform = fm, href = None, consoleErrors = [], dispatched = [], focused = None,
      listeners = [], otp = None\<rparr>"

text \<open>
  The form that decorate builds from its static fields (first name, last name, mobile
  number, OTP, and the submit button), with the values \<open>mobile\<close> and \<open>code\<close> in the mobile
  and OTP inputs.
\<close>

definition requiredInput :: "string \<Rightarrow> string \<Rightarrow> string \<Rightarrow> child" where
  "requiredInput type name v =
     Wrapper \<lparr>fieldsetElement = None, dataController = None, dataCondition = None,
              ariaHidden = None,
              controls = [(newControl ''input'' type name v)\<lparr>required := True\<rparr>]\<rparr>"

definition decorateForm :: "string \<Rightarrow> string \<Rightarrow> form" where
  "decorateForm mobile code =
     \<lparr>children =
        [requiredInput ''text'' ''firstName'' [],
         requiredInput ''text'' ''lastName'' [],
         requiredInput ''tel'' ''mobile'' mobile,
         requiredInput ''text'' ''otp'' code,
         Buttons [newControl ''button'' ''submit'' [] []]],
      dataAction = None, dataConfirmation = None\<rparr>"

text \<open>
  The browser's part of typing: the \<open>k\<close>-th control of wrapper \<open>j\<close> takes the value \<open>v\<close>.
\<close>

definition typeInto :: "nat \<Rightarrow> nat \<Rightarrow> string \<Rightarrow> page \<Rightarrow> page" where
  "typeInto j k v pg =
     pg\<lparr>pform := atWrapper
                     (\<lambda>w. if k < length (controls w)
                          then w\<lparr>controls := (controls w)[k := (controls w ! k)\<lparr>cvalue := v\<rparr>]\<rparr>
                          else w)
                     (pform pg) j\<rparr>"

text \<open>A submit at which the browser finds every control valid.\<close>

definition allValid :: validity where
  "allValid = \<lparr>otpValid = True, formValid = True, firstInvalid = None\<rparr>"

text \<open>
  The page that decorate leaves behind: the form built and initOtpBehavior run on it. The
  name \<^verbatim>\<open>otp\<close> is in camel case already, and toCamelCase is taken to leave it as it is.
  Then the same page after the user has typed a mobile number of ten digits and the
  interval has fired thirty times.
\<close>

definition otpAttached :: page where
  "otpAttached = initOtpBehavior (\<lambda>name. name) [] (newPage (decorateForm [] []))"

definition otpReady :: page where
  "otpReady =
     ((intervalFires 1) ^^ 30)
       (fire MobileInputEvent allValid (typeInto 2 0 ''9876543210'' otpAttached))"

text \<open>A form whose only element is a hidden input named \<^verbatim>\<open>otp\<close>, which buildField leaves bare.\<close>

definition hiddenOtpForm :: form where
  "hiddenOtpForm =
     \<lparr>children = [Bare (newControl ''input'' ''hidden'' ''otp'' [])],
      dataAction = None, dataConfirmation = None\<rparr>"

text \<open>
  For a descriptor with help: the paragraph that buildField makes of it, the id that
  paragraph gets, and the value of \<^verbatim>\<open>controlled\<close> in buildField. \<open>isDefaultType\<close> holds of
  the descriptors that reach the last part of buildField and get an input.
\<close>

definition helpIdOf :: "(string \<Rightarrow> string) \<Rightarrow> FieldConfig \<Rightarrow> string" where
  "helpIdOf toCamelCase field =
     generateId toCamelCase (orElse (f_field field) ''field'') None @ ''-help''"

definition helpTextOf :: "(string \<Rightarrow> string) \<Rightarrow> FieldConfig \<Rightarrow> node" where
  "helpTextOf toCamelCase field =
     writeHelpText (the (f_help field))
       (generateId toCamelCase (orElse (f_field field) ''field'') None)"

definition controlledOf :: "FieldConfig \<Rightarrow> string option" where
  "controlledOf field = (if truthy (f_conditional field) then f_conditional field else None)"

definition isDefaultType :: "FieldConfig \<Rightarrow> bool" where
  "isDefaultType field =
     (f_type field \<notin> set [Some ''hidden'', Some ''submit'', Some ''reset'', Some ''radio'',
                           Some ''checkbox'', Some ''toggle'', Some ''select'',
                           Some ''textarea''])"

text \<open>A descriptor of the given type and name with a label, help and two options.\<close>

definition helpField :: "string \<Rightarrow> string \<Rightarrow> FieldConfig" where
  "helpField type name =
     \<lparr>f_type = Some type, f_field = Some name, f_label = Some ''Label'',
      f_help = Some ''Help me'', f_required = None, f_default = None,
      f_placeholder = None, f_options = Some ''A,B'', f_conditional = None,
      f_value = None, f_pattern = None, f_maxlength = None, f_inputmode = None\<rparr>"

section \<open>Conditional visibility: how the loops act on one wrapper\<close>

lemma wrapperAt_atWrapper:
  "wrapperAt (atWrapper f fm j) k =
     (if k = j then map_option f (wrapperAt fm j) else wrapperAt fm k)"
  by (auto simp: atWrapper_def wrapperAt_def split: option.splits child.splits if_splits)

lemma wrapperAt_foldl_other:
  "k \<notin> set js \<Longrightarrow> wrapperAt (foldl (atWrapper f) fm js) k = wrapperAt fm k"
  by (induction js arbitrary: fm) (auto simp: wrapperAt_atWrapper)

lemma wrapperAt_foldl_distinct:
  "distinct js \<Longrightarrow> k \<in> set js \<Longrightarrow>
   wrapperAt (foldl (atWrapper f) fm js) k = map_option f (wrapperAt fm k)"
proof (induction js arbitrary: fm)
  case Nil
  then show ?case by simp
next
  case (Cons j js)
  show ?case
  proof (cases "k = j")
    case True
    with Cons.prems have "k \<notin> set js" by simp
    then show ?thesis using True
      by (simp add: wrapperAt_foldl_other wrapperAt_atWrapper)
  next
    case False
    with Cons.prems have "k \<in> set js" "distinct js" by simp_all
    then show ?thesis using False Cons.IH
      by (simp add: wrapperAt_atWrapper)
  qed
qed

lemma wrapperAt_foldl_inv:
  assumes "\<And>w. P w \<Longrightarrow> P (f w)"
  shows "wrapperAt fm k = Some w \<Longrightarrow> P w \<Longrightarrow>
         \<exists>w'. wrapperAt (foldl (atWrapper f) fm js) k = Some w' \<and> P w'"
proof (induction js arbitrary: fm w)
  case Nil
  then show ?case by simp
next
  case (Cons j js)
  show ?case
  proof (cases "k = j")
    case True
    then have "wrapperAt (atWrapper f fm j) k = Some (f w)"
      using Cons.prems by (simp add: wrapperAt_atWrapper)
    moreover have "P (f w)" using assms Cons.prems by simp
    ultimately show ?thesis using Cons.IH by simp
  next
    case False
    then have "wrapperAt (atWrapper f fm j) k = Some w"
      using Cons.prems by (simp add: wrapperAt_atWrapper)
    then show ?thesis using Cons.IH Cons.prems by simp
  qed
qed

lemma firstControl_updFirst:
  assumes "\<And>c. isControlTag (g c) = isControlTag c"
  shows "find isControlTag (updFirst isControlTag g cs) = map_option g (find isControlTag cs)"
  by (induction cs) (auto simp: assms)

lemma isControlTag_toggleInput [simp]: "isControlTag (toggleInput met c) = isControlTag c"
  by (simp add: isControlTag_def toggleInput_def)

lemma isControlTag_initInput [simp]: "isControlTag (initInput met c) = isControlTag c"
  by (simp add: isControlTag_def initInput_def storeOriginalRequired_def Let_def)

lemma isControlTag_hideInput [simp]: "isControlTag (hideInput c) = isControlTag c"
  by (simp add: isControlTag_def hideInput_def storeOriginalRequired_def Let_def)

lemma firstControl_toggleField:
  "firstControl (toggleField tcn v w) =
     map_option (toggleInput (conditionMet tcn (dataCondition w) v)) (firstControl w)"
  by (simp add: firstControl_def toggleField_def Let_def firstControl_updFirst)

lemma firstControl_initField:
  "firstControl (initField tcn v w) =
     map_option (initInput (conditionMet tcn (dataCondition w) v)) (firstControl w)"
  by (simp add: firstControl_def initField_def Let_def firstControl_updFirst)

lemma firstControl_hideField:
  "firstControl (hideField w) = map_option hideInput (firstControl w)"
  by (simp add: firstControl_def hideField_def firstControl_updFirst)


lemma shape_toggleInput [simp]: "shape (toggleInput met c) = shape c"
  by (simp add: shape_def toggleInput_def)

lemma shape_initInput [simp]: "shape (initInput met c) = shape c"
  by (simp add: shape_def initInput_def storeOriginalRequired_def Let_def)

lemma shape_hideInput [simp]: "shape (hideInput c) = shape c"
  by (simp add: shape_def hideInput_def storeOriginalRequired_def Let_def)

lemma shape_updFirst:
  assumes "\<And>c. shape (g c) = shape c"
  shows "map shape (updFirst P g cs) = map shape cs"
  by (induction cs) (auto simp: assms)


lemma shape_listed_initField:
  "map shape (listed (Wrapper (initField tcn v w))) = map shape (listed (Wrapper w))"
  by (simp add: initField_def Let_def shape_updFirst split: option.splits)

lemma shape_listed_hideField:
  "map shape (listed (Wrapper (hideField w))) = map shape (listed (Wrapper w))"
  by (simp add: hideField_def shape_updFirst split: option.splits)

lemma shape_elements_atWrapper:
  assumes "\<And>w. map shape (listed (Wrapper (f w))) = map shape (listed (Wrapper w))"
  shows "map shape (elements (atWrapper f fm j)) = map shape (elements fm)"
proof (cases "wrapperAt fm j")
  case None
  then show ?thesis by (simp add: atWrapper_def)
next
  case (Some w)
  then have j: "j < length (children fm)" and w: "children fm ! j = Wrapper w"
    by (auto simp: wrapperAt_def split: if_splits child.splits)
  have "map (map shape \<circ> listed) ((children fm)[j := Wrapper (f w)])
        = (map (map shape \<circ> listed) (children fm))[j := map shape (listed (Wrapper w))]"
    by (simp add: map_update assms del: listed.simps)
  also have "\<dots> = map (map shape \<circ> listed) (children fm)"
    using j w by (metis (no_types, lifting) comp_apply length_map list_update_id nth_map)
  finally show ?thesis using Some
    by (simp add: atWrapper_def elements_def map_concat del: listed.simps)
qed

lemma shape_elements_foldl:
  assumes "\<And>w. map shape (listed (Wrapper (f w))) = map shape (listed (Wrapper w))"
  shows "map shape (elements (foldl (atWrapper f) fm js)) = map shape (elements fm)"
proof (induction js arbitrary: fm)
  case Nil
  show ?case by simp
next
  case (Cons j js)
  have "map shape (elements (atWrapper f fm j)) = map shape (elements fm)"
    by (rule shape_elements_atWrapper) (rule assms)
  with Cons.IH[of "atWrapper f fm j"] show ?case by simp
qed


lemma shape_initController:
  "map shape (elements (initController tcn fm entry)) = map shape (elements fm)"
proof (cases entry)
  case (Pair K js)
  have a: "map shape (elements (foldl (atWrapper (initField tcn v)) fm js))
        = map shape (elements fm)" for v
    by (rule shape_elements_foldl) (rule shape_listed_initField)
  have b: "map shape (elements (foldl (atWrapper hideField) fm js)) = map shape (elements fm)"
    by (rule shape_elements_foldl) (rule shape_listed_hideField)
  show ?thesis using a b Pair by (simp add: initController_def)
qed


lemma find_shape:
  assumes "\<And>a b. shape a = shape b \<Longrightarrow> P a = P b"
  shows "map shape xs = map shape ys \<Longrightarrow> map_option shape (find P xs) = map_option shape (find P ys)"
proof (induction xs arbitrary: ys)
  case Nil
  then show ?case by simp
next
  case (Cons x xs)
  then obtain y ys' where ys: "ys = y # ys'" "shape x = shape y" "map shape xs = map shape ys'"
    by (cases ys) auto
  have "P x = P y" using ys(2) by (rule assms)
  then show ?case using Cons.IH[OF ys(3)] ys(1,2) by simp
qed

lemma controllerValue_shape:
  assumes "map shape (elements fm') = map shape (elements fm)"
  shows "controllerValue fm' K = controllerValue fm K"
proof -
  have a: "map_option shape (find (\<lambda>c. cname c = K \<and> isChecked c) (elements fm'))
         = map_option shape (find (\<lambda>c. cname c = K \<and> isChecked c) (elements fm))"
  proof (rule find_shape)
    show "(cname a = K \<and> isChecked a) = (cname b = K \<and> isChecked b)"
      if "shape a = shape b" for a b
      using that by (simp add: shape_def isChecked_def)
  qed (rule assms)
  have b: "map_option shape (find (\<lambda>c. tagName c = ''select'' \<and> cname c = K) (elements fm'))
         = map_option shape (find (\<lambda>c. tagName c = ''select'' \<and> cname c = K) (elements fm))"
  proof (rule find_shape)
    show "(tagName a = ''select'' \<and> cname a = K) = (tagName b = ''select'' \<and> cname b = K)"
      if "shape a = shape b" for a b
      using that by (simp add: shape_def)
  qed (rule assms)
  have c: "map_option cvalue (find P (elements fm')) = map_option cvalue (find P (elements fm))"
    if "map_option shape (find P (elements fm')) = map_option shape (find P (elements fm))" for P
    using that
    by (cases "find P (elements fm')"; cases "find P (elements fm)") (auto simp: shape_def)
  show ?thesis using c[OF a] c[OF b]
    by (cases "find (\<lambda>c. cname c = K \<and> isChecked c) (elements fm')";
        cases "find (\<lambda>c. cname c = K \<and> isChecked c) (elements fm)";
        cases "find (\<lambda>c. tagName c = ''select'' \<and> cname c = K) (elements fm')";
        cases "find (\<lambda>c. tagName c = ''select'' \<and> cname c = K) (elements fm)")
       (auto simp: controllerValue_def)
qed


lemma controllerValue_initController:
  "controllerValue (initController tcn fm entry) K = controllerValue fm K"
  by (rule controllerValue_shape) (rule shape_initController)

lemma initController_other:
  "j \<notin> set js \<Longrightarrow> wrapperAt (initController tcn fm (K, js)) j = wrapperAt fm j"
  by (simp add: initController_def wrapperAt_foldl_other)

lemma initController_at:
  "distinct js \<Longrightarrow> j \<in> set js \<Longrightarrow>
   wrapperAt (initController tcn fm (K, js)) j
     = map_option (initStep tcn (controllerValue fm K)) (wrapperAt fm j)"
  by (simp add: initController_def initStep_def wrapperAt_foldl_distinct)

lemma initConditionals_other:
  "j \<notin> set (concat (map snd cfg)) \<Longrightarrow>
   wrapperAt (initConditionals tcn fm cfg) j = wrapperAt fm j"
  unfolding initConditionals_def
proof (induction cfg arbitrary: fm)
  case Nil
  show ?case by simp
next
  case (Cons entry cfg)
  obtain K js where e: "entry = (K, js)" by (cases entry)
  from Cons.prems e have "j \<notin> set js" "j \<notin> set (concat (map snd cfg))" by simp_all
  then show ?case using Cons.IH[of "initController tcn fm entry"] e
    by (simp add: initController_other)
qed

lemma initConditionals_at:
  assumes "distinct (concat (map snd cfg))" "(K, js) \<in> set cfg" "j \<in> set js"
  shows "wrapperAt (initConditionals tcn fm cfg) j
           = map_option (initStep tcn (controllerValue fm K)) (wrapperAt fm j)"
  using assms
proof (induction cfg arbitrary: fm)
  case Nil
  then show ?case by simp
next
  case (Cons entry cfg)
  obtain K' js' where e: "entry = (K', js')" by (cases entry)
  from Cons.prems(1) e have d: "distinct js'" "distinct (concat (map snd cfg))"
    "set js' \<inter> set (concat (map snd cfg)) = {}" by simp_all
  have unf: "initConditionals tcn fm (entry # cfg)
             = initConditionals tcn (initController tcn fm entry) cfg"
    by (simp add: initConditionals_def)
  show ?case
  proof (cases "j \<in> set js'")
    case True
    with d(3) have notin: "j \<notin> set (concat (map snd cfg))" by auto
    have "(K, js) \<notin> set cfg"
    proof
      assume "(K, js) \<in> set cfg"
      with Cons.prems(3) have "j \<in> set (concat (map snd cfg))" by force
      with notin show False by simp
    qed
    with Cons.prems(2) e have "K' = K" "js' = js" by auto
    then show ?thesis using unf e d(1) True
      by (simp add: initConditionals_other[OF notin] initController_at)
  next
    case False
    with Cons.prems(2,3) e have "(K, js) \<in> set cfg" by auto
    from Cons.IH[OF d(2) this Cons.prems(3), of "initController tcn fm entry"]
    show ?thesis using unf e False
      by (simp add: controllerValue_initController initController_other)
  qed
qed

lemma valid_lookup:
  assumes "validConfig cfg fm" "(K, js) \<in> set cfg"
  shows "map_of cfg K = Some js" "distinct js" "distinct (concat (map snd cfg))"
proof -
  from assms(1) have d: "distinct (map fst cfg)" "distinct (concat (map snd cfg))"
    by (simp_all add: validConfig_def)
  show "map_of cfg K = Some js" using d(1) assms(2) by simp
  have "js \<in> set (map snd cfg)" using assms(2) by force
  then show "distinct js" using d(2) by (simp add: distinct_concat_iff)
  show "distinct (concat (map snd cfg))" by (rule d(2))
qed

lemma valid_input:
  assumes "validConfig cfg fm" "(K, js) \<in> set cfg" "j \<in> set js"
  shows "\<exists>w i. wrapperAt fm j = Some w \<and> firstControl w = Some i"
proof -
  have "j \<in> set (concat (map snd cfg))" using assms(2,3) by force
  with assms(1) have "inputAt fm j \<noteq> None"
    unfolding validConfig_def list_all_iff by blast
  then show ?thesis by (auto simp: inputAt_def split: option.splits)
qed

lemma toggleConditional_at:
  assumes "map_of cfg (targetName e) = Some js" "distinct js" "j \<in> set js"
  shows "wrapperAt (toggleConditional tcn e cfg fm) j
           = map_option (toggleField tcn (targetValue e)) (wrapperAt fm j)"
  using assms by (simp add: toggleConditional_def wrapperAt_foldl_distinct)

lemma ariaHidden_toggleField [simp]:
  "ariaHidden (toggleField tcn v w) = Some (jsString (\<not> conditionMet tcn (dataCondition w) v))"
  by (simp add: toggleField_def Let_def)

lemma ariaHidden_initField [simp]:
  "ariaHidden (initField tcn v w) = Some (jsString (\<not> conditionMet tcn (dataCondition w) v))"
  by (simp add: initField_def Let_def)

lemma ariaHidden_hideField [simp]: "ariaHidden (hideField w) = Some ''true''"
  by (simp add: hideField_def)

lemma dataCondition_toggleField [simp]: "dataCondition (toggleField tcn v w) = dataCondition w"
  by (simp add: toggleField_def Let_def)

lemma dataCondition_initField [simp]: "dataCondition (initField tcn v w) = dataCondition w"
  by (simp add: initField_def Let_def)

lemma dataCondition_hideField [simp]: "dataCondition (hideField w) = dataCondition w"
  by (simp add: hideField_def)

lemma jsString_false [simp]: "(jsString b = ''false'') = (\<not> b)"
  by (simp add: jsString_def)

lemma tracks_toggleField:
  "tracksVisibility c w \<Longrightarrow> tracksVisibility c (toggleField tcn v w)"
  by (auto simp: tracksVisibility_def firstControl_toggleField toggleInput_def
           split: option.splits)

lemma tracks_initStep:
  assumes "firstControl w = Some i" "required i" "originalRequired i = None"
  shows "tracksVisibility (dataCondition w) (initStep tcn cv w)"
  using assms
  by (auto simp: tracksVisibility_def initStep_def firstControl_initField
        firstControl_hideField initInput_def hideInput_def storeOriginalRequired_def
        truthy_def Let_def jsString_def)

lemma required_toggleField:
  assumes "tracksVisibility c w"
  shows "\<exists>i. firstControl (toggleField tcn v w) = Some i
             \<and> (required i \<longleftrightarrow> conditionMet tcn c v)"
proof -
  from assms obtain i0 where i0: "firstControl w = Some i0"
    "originalRequired i0 = Some ''true''" "dataCondition w = c"
    by (auto simp: tracksVisibility_def split: option.splits)
  have "firstControl (toggleField tcn v w) = Some (toggleInput (conditionMet tcn c v) i0)"
    using i0 by (simp add: firstControl_toggleField)
  moreover have "required (toggleInput (conditionMet tcn c v) i0) \<longleftrightarrow> conditionMet tcn c v"
    using i0(2) by (simp add: toggleInput_def)
  ultimately show ?thesis by blast
qed

lemma tracks_toggleConditional:
  assumes "wrapperAt fm j = Some w" "tracksVisibility c w"
  shows "\<exists>w'. wrapperAt (toggleConditional tcn e cfg fm) j = Some w' \<and> tracksVisibility c w'"
proof (cases "map_of cfg (targetName e)")
  case None
  then show ?thesis using assms by (simp add: toggleConditional_def)
next
  case (Some js)
  have "\<exists>w'. wrapperAt (foldl (atWrapper (toggleField tcn (targetValue e))) fm js) j = Some w'
             \<and> tracksVisibility c w'"
    using assms
    by (rule wrapperAt_foldl_inv[where P = "tracksVisibility c", rotated]) (rule tracks_toggleField)
  then show ?thesis using Some by (simp add: toggleConditional_def)
qed

lemma tracks_changes:
  "wrapperAt fm j = Some w \<Longrightarrow> tracksVisibility c w \<Longrightarrow>
   \<exists>w'. wrapperAt (changes tcn cfg fm es) j = Some w' \<and> tracksVisibility c w'"
proof (induction es arbitrary: fm w)
  case Nil
  then show ?case by (simp add: changes_def)
next
  case (Cons e es)
  from tracks_toggleConditional[OF Cons.prems, of tcn e cfg]
  obtain w1 where w1: "wrapperAt (toggleConditional tcn e cfg fm) j = Some w1"
    "tracksVisibility c w1" by blast
  from Cons.IH[OF w1] show ?case by (simp add: changes_def)
qed

section \<open>The controller map that enableConditionals builds\<close>

text \<open>
  The properties below are stated for every controller map that satisfies \<open>validConfig\<close>.
  The map that enableConditionals builds for a form does, and in the examples it is
  \<open>planConfig\<close>.
\<close>

lemma fst_addControlled: "set (map fst (addControlled K j cfg)) = insert K (set (map fst cfg))"
  by (induction cfg) auto

lemma distinct_fst_addControlled:
  "distinct (map fst cfg) \<Longrightarrow> distinct (map fst (addControlled K j cfg))"
proof (induction cfg)
  case Nil
  then show ?case by simp
next
  case (Cons entry cfg)
  show ?case
  proof (cases "fst entry = K")
    case True
    with Cons.prems show ?thesis by simp
  next
    case False
    have "fst entry \<notin> set (map fst (addControlled K j cfg))"
      using Cons.prems False by (simp add: fst_addControlled del: set_map)
    with Cons show ?thesis using False by simp
  qed
qed

lemma set_concat_addControlled:
  "set (concat (map snd (addControlled K j cfg))) = insert j (set (concat (map snd cfg)))"
  by (induction cfg) auto

lemma distinct_concat_addControlled:
  "distinct (concat (map snd cfg)) \<Longrightarrow> j \<notin> set (concat (map snd cfg)) \<Longrightarrow>
   distinct (concat (map snd (addControlled K j cfg)))"
proof (induction cfg)
  case Nil
  then show ?case by simp
next
  case (Cons entry cfg)
  show ?case
  proof (cases "fst entry = K")
    case True
    with Cons.prems show ?thesis by auto
  next
    case False
    from Cons.prems have d: "distinct (snd entry)" "distinct (concat (map snd cfg))"
      "set (snd entry) \<inter> set (concat (map snd cfg)) = {}" "j \<notin> set (snd entry)"
      "j \<notin> set (concat (map snd cfg))" by auto
    have "distinct (concat (map snd (addControlled K j cfg)))"
      using Cons.IH d(2,5) by simp
    moreover have "set (snd entry) \<inter> set (concat (map snd (addControlled K j cfg))) = {}"
      using d(3,4) by (simp only: set_concat_addControlled) auto
    ultimately show ?thesis using False d(1) by simp
  qed
qed

lemma discover_invariant:
  "distinct (map fst (foldl (discoverStep fm) [] [0..<n]))
   \<and> distinct (concat (map snd (foldl (discoverStep fm) [] [0..<n])))
   \<and> (\<forall>j\<in>set (concat (map snd (foldl (discoverStep fm) [] [0..<n]))).
         j < n \<and> inputAt fm j \<noteq> None)"
proof (induction n)
  case 0
  show ?case by simp
next
  case (Suc n)
  let ?cfg = "foldl (discoverStep fm) [] [0..<n]"
  have unf: "foldl (discoverStep fm) [] [0..<Suc n] = discoverStep fm ?cfg n" by simp
  from Suc have d1: "distinct (map fst ?cfg)" and d2: "distinct (concat (map snd ?cfg))"
    and d3: "\<forall>j\<in>set (concat (map snd ?cfg)). j < n \<and> inputAt fm j \<noteq> None" by blast+
  from d3 have fresh: "n \<notin> set (concat (map snd ?cfg))" by auto
  show ?case
  proof (cases "discoverStep fm ?cfg n = ?cfg")
    case True
    then show ?thesis unfolding unf using d1 d2 d3 by (auto simp: less_Suc_eq)
  next
    case False
    then obtain c where c: "wrapperAt fm n = Some c" "firstControl c \<noteq> None"
      "discoverStep fm ?cfg n = addControlled (the (dataController c)) n ?cfg"
      by (auto simp: discoverStep_def split: option.splits if_splits)
    have i: "inputAt fm n \<noteq> None" using c(1,2) by (simp add: inputAt_def)
    show ?thesis unfolding unf c(3)
      using d1 d2 d3 fresh i
      by (auto simp: distinct_fst_addControlled distinct_concat_addControlled
            set_concat_addControlled less_Suc_eq simp del: set_concat)
  qed
qed

lemma validConfig_controllerConfigOf: "validConfig (controllerConfigOf fm) fm"
  using discover_invariant[of fm "length (children fm)"]
  by (simp add: validConfig_def controllerConfigOf_def list_all_iff del: set_concat)

lemma planConfig_discovered: "controllerConfigOf (planForm sel cond) = planConfig"
  by (simp add: controllerConfigOf_def discoverStep_def planForm_def planConfig_def
        wrapperAt_def firstControl_def isControlTag_def newControl_def truthy_def upt_rec)

lemma selectConfig_discovered: "controllerConfigOf (selectForm v cond) = planConfig"
  by (simp add: controllerConfigOf_def discoverStep_def selectForm_def planConfig_def
        wrapperAt_def firstControl_def isControlTag_def newControl_def truthy_def upt_rec)

section \<open>The visibility that each path assigns\<close>

lemma conditionMet_Some:
  "conditionMet tcn (Some c) v = (c \<noteq> [] \<and> str_includes c (tcn v))"
  by (simp add: conditionMet_def)

lemma ariaHidden_init_resolved:
  assumes "validConfig cfg fm" "(K, js) \<in> set cfg" "j \<in> set js"
    and "controllerValue fm K = Some v" "v \<noteq> []"
  shows "ariaHiddenAt (initConditionals tcn fm cfg) j
           = Some (jsString (\<not> conditionMet tcn (conditionAt fm j) v))"
proof -
  from valid_input[OF assms(1-3)] obtain w0 where w0: "wrapperAt fm j = Some w0" by blast
  note look = valid_lookup[OF assms(1,2)]
  have "wrapperAt (initConditionals tcn fm cfg) j = Some (initField tcn v w0)"
    using initConditionals_at[OF look(3) assms(2,3), of tcn fm] w0 assms(4,5)
    by (simp add: initStep_def truthy_def)
  then show ?thesis using w0 by (simp add: ariaHiddenAt_def conditionAt_def)
qed

lemma ariaHidden_init_unresolved:
  assumes "validConfig cfg fm" "(K, js) \<in> set cfg" "j \<in> set js"
    and "\<not> truthy (controllerValue fm K)"
  shows "ariaHiddenAt (initConditionals tcn fm cfg) j = Some ''true''"
proof -
  from valid_input[OF assms(1-3)] obtain w0 where w0: "wrapperAt fm j = Some w0" by blast
  note look = valid_lookup[OF assms(1,2)]
  have "wrapperAt (initConditionals tcn fm cfg) j = Some (hideField w0)"
    using initConditionals_at[OF look(3) assms(2,3), of tcn fm] w0 assms(4)
    by (simp add: initStep_def)
  then show ?thesis by (simp add: ariaHiddenAt_def)
qed

lemma ariaHidden_toggle:
  assumes "validConfig cfg fm" "(K, js) \<in> set cfg" "j \<in> set js"
  shows "ariaHiddenAt (toggleConditional tcn \<lparr>targetName = K, targetValue = v\<rparr> cfg fm) j
           = Some (jsString (\<not> conditionMet tcn (conditionAt fm j) v))"
proof -
  from valid_input[OF assms(1-3)] obtain w0 where w0: "wrapperAt fm j = Some w0" by blast
  note look = valid_lookup[OF assms(1,2)]
  have "wrapperAt (toggleConditional tcn \<lparr>targetName = K, targetValue = v\<rparr> cfg fm) j
          = Some (toggleField tcn v w0)"
    using toggleConditional_at[of cfg "\<lparr>targetName = K, targetValue = v\<rparr>" js j tcn fm]
      look(1,2) assms(3) w0 by simp
  then show ?thesis using w0 by (simp add: ariaHiddenAt_def conditionAt_def)
qed

text \<open>The definitions that the evaluation of the examples unfolds.\<close>

lemmas example_defs = validConfig_def planConfig_def planForm_def inputAt_def wrapperAt_def
  firstControl_def isControlTag_def newControl_def conditionAt_def ariaHiddenAt_def
  requiredAt_def toggleConditional_def atWrapper_def toggleField_def toggleInput_def
  conditionMet_def toClassNameSpec_def lowerChar_def isAlnum_def jsString_def
  initConditionals_def initController_def controllerValue_def elements_def isChecked_def
  truthy_def initField_def initInput_def hideField_def hideInput_def
  storeOriginalRequired_def selectForm_def Let_def


section \<open>The snapshot of the required attribute\<close>

text \<open>
  The round trip of a tracked control. Take a control that the controller map lists under
  the controller \<open>K\<close> (the first control of a wrapper tagged with that controller), that
  carries
  \<^verbatim>\<open>required\<close> when initConditionals runs and has no snapshot yet. After
  initConditionals and any run of change events it is required exactly when its wrapper
  is shown (\<^verbatim>\<open>aria-hidden="false"\<close>); and after one more change event of \<open>K\<close> with the
  value \<open>v\<close> it is required exactly when the condition is met by \<open>v\<close>: hiding removes
  \<^verbatim>\<open>required\<close>, showing restores it, however many times.
\<close>

theorem required_round_trip:
  assumes "validConfig cfg fm" and "(K, js) \<in> set cfg" and "j \<in> set js"
    and "requiredAt fm j" and "originalRequiredAt fm j = None"
  shows "(requiredAt (changes tcn cfg (initConditionals tcn fm cfg) es) j
            \<longleftrightarrow> ariaHiddenAt (changes tcn cfg (initConditionals tcn fm cfg) es) j = Some ''false'')
       \<and> (requiredAt (toggleConditional tcn \<lparr>targetName = K, targetValue = v\<rparr> cfg
                        (changes tcn cfg (initConditionals tcn fm cfg) es)) j
            \<longleftrightarrow> conditionMet tcn (conditionAt fm j) v)
       \<and> ariaHiddenAt (toggleConditional tcn \<lparr>targetName = K, targetValue = v\<rparr> cfg
                        (changes tcn cfg (initConditionals tcn fm cfg) es)) j
            = Some (jsString (\<not> conditionMet tcn (conditionAt fm j) v))"
proof -
  from valid_input[OF assms(1-3)] obtain w0 i0 where
    w0: "wrapperAt fm j = Some w0" and i0: "firstControl w0 = Some i0" by blast
  from assms(4,5) w0 i0 have req: "required i0" "originalRequired i0 = None"
    by (simp_all add: requiredAt_def originalRequiredAt_def inputAt_def)
  have c: "conditionAt fm j = dataCondition w0" using w0 by (simp add: conditionAt_def)
  note look = valid_lookup[OF assms(1,2)]
  let ?start = "initConditionals tcn fm cfg"
  let ?now = "changes tcn cfg ?start es"
  have a: "wrapperAt ?start j = Some (initStep tcn (controllerValue fm K) w0)"
    using initConditionals_at[OF look(3) assms(2,3), of tcn fm] w0 by simp
  have b: "tracksVisibility (dataCondition w0) (initStep tcn (controllerValue fm K) w0)"
    using i0 req by (rule tracks_initStep)
  from tracks_changes[OF a b, of tcn cfg es] obtain w where w: "wrapperAt ?now j = Some w" "tracksVisibility (dataCondition w0) w"
    by blast
  have one: "requiredAt ?now j \<longleftrightarrow> ariaHiddenAt ?now j = Some ''false''"
    using w by (auto simp: requiredAt_def ariaHiddenAt_def inputAt_def tracksVisibility_def
                     split: option.splits)
  let ?e = "\<lparr>targetName = K, targetValue = v\<rparr>"
  have at: "wrapperAt (toggleConditional tcn ?e cfg ?now) j = Some (toggleField tcn v w)"
    using toggleConditional_at[of cfg ?e js j tcn ?now] look(1,2) assms(3) w(1) by simp
  from required_toggleField[OF w(2), of tcn v] obtain i where
    i: "firstControl (toggleField tcn v w) = Some i"
       "required i \<longleftrightarrow> conditionMet tcn (dataCondition w0) v" by blast
  have two: "requiredAt (toggleConditional tcn ?e cfg ?now) j
             \<longleftrightarrow> conditionMet tcn (conditionAt fm j) v"
    using at i c by (simp add: requiredAt_def inputAt_def)
  have "dataCondition w = dataCondition w0" using w(2) by (simp add: tracksVisibility_def)
  then have three: "ariaHiddenAt (toggleConditional tcn ?e cfg ?now) j
             = Some (jsString (\<not> conditionMet tcn (conditionAt fm j) v))"
    using at c by (simp add: ariaHiddenAt_def)
  from one two three show ?thesis by blast
qed

theorem required_round_trip_witness:
  "validConfig planConfig (planForm ''Basic'' ''plan-pro'')
   \<and> (''plan'', [1]) \<in> set planConfig \<and> (1::nat) \<in> set [1]
   \<and> requiredAt (planForm ''Basic'' ''plan-pro'') 1
   \<and> originalRequiredAt (planForm ''Basic'' ''plan-pro'') 1 = None
   \<and> \<not> requiredAt (toggleConditional toClassNameSpec
                       \<lparr>targetName = ''plan'', targetValue = ''Basic''\<rparr> planConfig
                       (changes toClassNameSpec planConfig
                          (initConditionals toClassNameSpec (planForm ''Basic'' ''plan-pro'')
                             planConfig)
                          [\<lparr>targetName = ''plan'', targetValue = ''Pro''\<rparr>])) 1
   \<and> requiredAt (toggleConditional toClassNameSpec
                     \<lparr>targetName = ''plan'', targetValue = ''Pro''\<rparr> planConfig
                     (changes toClassNameSpec planConfig
                        (initConditionals toClassNameSpec (planForm ''Basic'' ''plan-pro'')
                           planConfig)
                        [\<lparr>targetName = ''plan'', targetValue = ''Basic''\<rparr>])) 1"
proof -
  let ?fm = "planForm ''Basic'' ''plan-pro''"
  have h1: "validConfig planConfig ?fm"
    by (simp add: validConfig_def planConfig_def planForm_def inputAt_def wrapperAt_def
          firstControl_def isControlTag_def newControl_def)
  have h2: "(''plan'', [1]) \<in> set planConfig" by (simp add: planConfig_def)
  have h3: "(1::nat) \<in> set [1]" by simp
  have h4: "requiredAt ?fm 1"
    by (simp add: requiredAt_def planForm_def inputAt_def wrapperAt_def
          firstControl_def isControlTag_def newControl_def)
  have h5: "originalRequiredAt ?fm 1 = None"
    by (simp add: originalRequiredAt_def planForm_def inputAt_def wrapperAt_def
          firstControl_def isControlTag_def newControl_def)
  have c: "conditionAt ?fm 1 = Some ''plan-pro''"
    by (simp add: conditionAt_def planForm_def wrapperAt_def)
  have m1: "\<not> conditionMet toClassNameSpec (Some ''plan-pro'') ''Basic''"
    by (simp add: conditionMet_def toClassNameSpec_def lowerChar_def isAlnum_def)
  have m2: "conditionMet toClassNameSpec (Some ''plan-pro'') ''Pro''"
    by (simp add: conditionMet_def toClassNameSpec_def lowerChar_def isAlnum_def)
  from required_round_trip[OF h1 h2 h3 h4 h5, of toClassNameSpec
         "[\<lparr>targetName = ''plan'', targetValue = ''Pro''\<rparr>]" "''Basic''"]
       required_round_trip[OF h1 h2 h3 h4 h5, of toClassNameSpec
         "[\<lparr>targetName = ''plan'', targetValue = ''Basic''\<rparr>]" "''Pro''"]
  show ?thesis using h1 h2 h4 h5 c m1 m2 by simp
qed

text \<open>
  Claim C2 fails on the code for a controlled group of options. buildOptions gives every
  option of a required radio or checkbox group the \<^verbatim>\<open>required\<close> attribute, and
  enableConditionals enters only the first control of the group into the controller map.
  On the form \<open>tierForm\<close>, whose required group \<open>tier\<close> is shown when the plan is Pro,
  the map that enableConditionals builds lists the wrapper once; with no plan chosen
  initConditionals hides the group, whatever toClassName is, and removes \<^verbatim>\<open>required\<close>
  from the first option only; a change event that chooses the plan Basic leaves the group
  hidden and its second option required. The hidden group is still required.
\<close>

theorem hidden_group_keeps_required:
  "controllerConfigOf (tierForm []) = planConfig
   \<and> map required (controlsAt (tierForm []) 1) = [True, True]
   \<and> controllerValue (tierForm []) ''plan'' = None
   \<and> ariaHiddenAt (initConditionals tcn (tierForm []) planConfig) 1 = Some ''true''
   \<and> map required (controlsAt (initConditionals tcn (tierForm []) planConfig) 1)
        = [False, True]
   \<and> ariaHiddenAt (toggleConditional toClassNameSpec
                      \<lparr>targetName = ''plan'', targetValue = ''Basic''\<rparr> planConfig
                      (initConditionals tcn (tierForm []) planConfig)) 1
        = Some ''true''
   \<and> map required (controlsAt (toggleConditional toClassNameSpec
                      \<lparr>targetName = ''plan'', targetValue = ''Basic''\<rparr> planConfig
                      (initConditionals tcn (tierForm []) planConfig)) 1)
        = [False, True]"
  by (simp add: example_defs tierForm_def controlsAt_def controllerConfigOf_def
        discoverStep_def upt_rec)

section \<open>What is normalized before the match\<close>

text \<open>
  Claim C1, as amended. In both paths, initConditionals with the controller resolved to a
  non-empty value \<open>v\<close> and toggleConditional on a change event with the value \<open>v\<close>, the
  wrapper of a tracked control is shown exactly when its condition string \<open>c\<close>, taken as
  the author wrote it, contains \<open>toClassName v\<close>: the normalization is applied to the value
  of the controller only, whatever function it is.
\<close>

theorem match_normalizes_value_only:
  assumes "validConfig cfg fm" and "(K, js) \<in> set cfg" and "j \<in> set js"
    and "conditionAt fm j = Some c"
  shows "(controllerValue fm K = Some v \<and> v \<noteq> [] \<longrightarrow>
            ariaHiddenAt (initConditionals tcn fm cfg) j
              = Some (jsString (\<not> (c \<noteq> [] \<and> str_includes c (tcn v)))))
       \<and> ariaHiddenAt (toggleConditional tcn \<lparr>targetName = K, targetValue = v\<rparr> cfg fm) j
            = Some (jsString (\<not> (c \<noteq> [] \<and> str_includes c (tcn v))))"
  using ariaHidden_init_resolved[OF assms(1-3), of v tcn]
        ariaHidden_toggle[OF assms(1-3), of tcn v] assms(4)
  by (simp add: conditionMet_Some)

theorem match_normalizes_value_only_witness:
  "validConfig planConfig (planForm ''Pro'' ''plan-pro'')
   \<and> (''plan'', [1]) \<in> set planConfig \<and> (1::nat) \<in> set [1]
   \<and> conditionAt (planForm ''Pro'' ''plan-pro'') 1 = Some ''plan-pro''
   \<and> controllerValue (planForm ''Pro'' ''plan-pro'') ''plan'' = Some ''Pro''
   \<and> ariaHiddenAt (initConditionals toClassNameSpec (planForm ''Pro'' ''plan-pro'') planConfig) 1
        = Some ''false''
   \<and> ariaHiddenAt (toggleConditional toClassNameSpec
                      \<lparr>targetName = ''plan'', targetValue = ''Pro''\<rparr> planConfig
                      (planForm ''Pro'' ''plan-pro'')) 1
        = Some ''false''"
proof -
  let ?fm = "planForm ''Pro'' ''plan-pro''"
  have h1: "validConfig planConfig ?fm" by (simp add: example_defs)
  have h2: "(''plan'', [1]) \<in> set planConfig" by (simp add: planConfig_def)
  have h3: "(1::nat) \<in> set [1]" by simp
  have h4: "conditionAt ?fm 1 = Some ''plan-pro''" by (simp add: example_defs)
  have v: "controllerValue ?fm ''plan'' = Some ''Pro''" by (simp add: example_defs)
  have n: "toClassNameSpec ''Pro'' = ''pro''"
    by (simp add: toClassNameSpec_def lowerChar_def isAlnum_def)
  from match_normalizes_value_only[OF h1 h2 h3 h4, of "''Pro''" toClassNameSpec]
  show ?thesis using h1 h2 h4 v n by (simp add: jsString_def)
qed

text \<open>
  Claim C1 as stated fails: were the condition string normalized as well, the condition
  \<^verbatim>\<open>plan-Pro\<close> would be matched by the value \<^verbatim>\<open>Pro\<close>; both paths hide the field.
\<close>

theorem condition_not_normalized_counterexample:
  "str_includes (toClassNameSpec ''plan-Pro'') (toClassNameSpec ''Pro'')
   \<and> controllerValue (planForm ''Pro'' ''plan-Pro'') ''plan'' = Some ''Pro''
   \<and> ariaHiddenAt (initConditionals toClassNameSpec (planForm ''Pro'' ''plan-Pro'') planConfig) 1
        = Some ''true''
   \<and> ariaHiddenAt (toggleConditional toClassNameSpec
                      \<lparr>targetName = ''plan'', targetValue = ''Pro''\<rparr> planConfig
                      (planForm ''Pro'' ''plan-Pro'')) 1
        = Some ''true''"
  by (simp add: example_defs)

section \<open>Initialization and update compute the same visibility\<close>

text \<open>
  Where the two paths agree. For a tracked control and a non-empty value \<open>v\<close> to which
  initConditionals resolves its controller, the \<^verbatim>\<open>aria-hidden\<close> that initConditionals
  assigns is the one that toggleConditional assigns on a change event of that controller
  with the value \<open>v\<close>; and such an event after the initialization leaves it as it is.
\<close>

theorem init_and_update_agree:
  assumes "validConfig cfg fm" and "(K, js) \<in> set cfg" and "j \<in> set js"
    and "controllerValue fm K = Some v" and "v \<noteq> []"
  shows "ariaHiddenAt (initConditionals tcn fm cfg) j
           = ariaHiddenAt (toggleConditional tcn \<lparr>targetName = K, targetValue = v\<rparr> cfg fm) j
       \<and> ariaHiddenAt (toggleConditional tcn \<lparr>targetName = K, targetValue = v\<rparr> cfg
                         (initConditionals tcn fm cfg)) j
           = ariaHiddenAt (initConditionals tcn fm cfg) j"
proof -
  from valid_input[OF assms(1-3)] obtain w0 where w0: "wrapperAt fm j = Some w0" by blast
  note look = valid_lookup[OF assms(1,2)]
  let ?e = "\<lparr>targetName = K, targetValue = v\<rparr>"
  have i: "wrapperAt (initConditionals tcn fm cfg) j = Some (initField tcn v w0)"
    using initConditionals_at[OF look(3) assms(2,3), of tcn fm] w0 assms(4,5)
    by (simp add: initStep_def truthy_def)
  have t: "wrapperAt (toggleConditional tcn ?e cfg fm') j
             = map_option (toggleField tcn v) (wrapperAt fm' j)" for fm'
    using toggleConditional_at[of cfg ?e js j tcn fm'] look(1,2) assms(3) by simp
  show ?thesis using i t[of fm] t[of "initConditionals tcn fm cfg"] w0
    by (simp add: ariaHiddenAt_def)
qed

theorem init_and_update_agree_witness:
  "validConfig planConfig (planForm ''Pro'' ''plan-pro'')
   \<and> (''plan'', [1]) \<in> set planConfig \<and> (1::nat) \<in> set [1]
   \<and> controllerValue (planForm ''Pro'' ''plan-pro'') ''plan'' = Some ''Pro'' \<and> ''Pro'' \<noteq> []
   \<and> ariaHiddenAt (initConditionals toClassNameSpec (planForm ''Pro'' ''plan-pro'') planConfig) 1
        = ariaHiddenAt (toggleConditional toClassNameSpec
                         \<lparr>targetName = ''plan'', targetValue = ''Pro''\<rparr> planConfig
                         (planForm ''Pro'' ''plan-pro'')) 1"
proof -
  let ?fm = "planForm ''Pro'' ''plan-pro''"
  have h1: "validConfig planConfig ?fm" by (simp add: example_defs)
  have h2: "(''plan'', [1]) \<in> set planConfig" by (simp add: planConfig_def)
  have h3: "(1::nat) \<in> set [1]" by simp
  have h4: "controllerValue ?fm ''plan'' = Some ''Pro''" by (simp add: example_defs)
  have h5: "''Pro'' \<noteq> []" by simp
  from init_and_update_agree[OF h1 h2 h3 h4 h5, of toClassNameSpec]
  show ?thesis using h1 h2 h4 by simp
qed

text \<open>
  Claim C3 fails on the code at the empty value. On the form \<open>selectForm\<close> the controller
  \<open>plan\<close> is a select whose value is the empty string (its placeholder option), and the
  plan details are required and shown when the plan is Pro. initConditionals resolves the
  controller to the empty string, takes it for no value, hides the field and removes
  \<^verbatim>\<open>required\<close>. toggleConditional, on a change event of the controller with that same
  value, finds the empty string in the condition: on the form as built it shows the field,
  and after the initialization it shows the field and restores \<^verbatim>\<open>required\<close>.
\<close>

theorem empty_value_update_shows_field:
  "controllerConfigOf (selectForm [] ''plan-pro'') = planConfig
   \<and> controllerValue (selectForm [] ''plan-pro'') ''plan'' = Some []
   \<and> ariaHiddenAt (initConditionals toClassNameSpec (selectForm [] ''plan-pro'') planConfig) 1
        = Some ''true''
   \<and> requiredAt (initConditionals toClassNameSpec (selectForm [] ''plan-pro'') planConfig) 1
        = False
   \<and> ariaHiddenAt (toggleConditional toClassNameSpec
                      \<lparr>targetName = ''plan'', targetValue = []\<rparr> planConfig
                      (selectForm [] ''plan-pro'')) 1
        = Some ''false''
   \<and> ariaHiddenAt (toggleConditional toClassNameSpec
                      \<lparr>targetName = ''plan'', targetValue = []\<rparr> planConfig
                      (initConditionals toClassNameSpec (selectForm [] ''plan-pro'') planConfig)) 1
        = Some ''false''
   \<and> requiredAt (toggleConditional toClassNameSpec
                      \<lparr>targetName = ''plan'', targetValue = []\<rparr> planConfig
                      (initConditionals toClassNameSpec (selectForm [] ''plan-pro'') planConfig)) 1
        = True"
  by (simp add: example_defs controllerConfigOf_def discoverStep_def upt_rec)

section \<open>The payload\<close>










text \<open>
  A group of checkboxes under a name \<open>k\<close> that the payload does not inherit, no other
  enabled control having that name: when no checked box has the empty value, the payload
  holds the comma-join of the checked values in tree order, and nothing when no box is
  checked.
\<close>

lemma payloadStep_other:
  "cname c \<noteq> k \<or> disabled c \<Longrightarrow> payloadStep inh m c k = m k"
  by (auto simp: payloadStep_def assignKey_def)

lemma payloadStep_unchecked:
  "ctype c = ''checkbox'' \<Longrightarrow> \<not> checked c \<Longrightarrow> payloadStep inh m c k = m k"
  by (auto simp: payloadStep_def)

lemma payloadStep_checked:
  assumes "ctype c = ''checkbox''" "checked c" "cname c = k" "k \<noteq> []" "\<not> disabled c"
    and "k \<notin> set objectPrototypeNames"
  shows "payloadStep inh m c k
           = Some (if truthy (m k) then the (m k) @ '','' @ cvalue c else cvalue c)"
proof -
  have "k \<noteq> ''__proto__''" using assms(6) by (auto simp: objectPrototypeNames_def)
  then show ?thesis using assms
    by (auto simp: payloadStep_def assignKey_def truthy_def split: option.splits)
qed

lemma joinComma_glue:
  "joinComma ((a @ '','' @ v) # rest) = joinComma (a # v # rest)"
  by (cases rest) simp_all

lemma checkbox_fold:
  assumes "k \<noteq> []" "k \<notin> set objectPrototypeNames"
  shows "\<forall>c\<in>set xs. cname c = k \<and> \<not> disabled c \<longrightarrow> ctype c = ''checkbox'' \<and> (checked c \<longrightarrow> cvalue c \<noteq> []) \<Longrightarrow>
         foldl (payloadStep inh) m xs k
           = (case map cvalue (filter (\<lambda>c. cname c = k \<and> \<not> disabled c \<and> checked c) xs) of
                [] \<Rightarrow> m k
              | v # vs \<Rightarrow> Some (joinComma ((if truthy (m k) then [the (m k)] else []) @ v # vs)))"
proof (induction xs arbitrary: m)
  case Nil
  then show ?case by simp
next
  case (Cons x xs)
  let ?sel = "\<lambda>c. cname c = k \<and> \<not> disabled c \<and> checked c"
  let ?R = "\<lambda>mk vals. (case vals of [] \<Rightarrow> mk
              | v # vs \<Rightarrow> Some (joinComma ((if truthy mk then [the mk] else []) @ v # vs)))"
  have IH: "foldl (payloadStep inh) (payloadStep inh m x) xs k
              = ?R (payloadStep inh m x k) (map cvalue (filter ?sel xs))"
    using Cons.IH[of "payloadStep inh m x"] Cons.prems by simp
  have unf: "foldl (payloadStep inh) m (x # xs) k
               = foldl (payloadStep inh) (payloadStep inh m x) xs k"
    by simp
  show ?case
  proof (cases "?sel x")
    case False
    have "payloadStep inh m x k = m k"
    proof (cases "cname x = k \<and> \<not> disabled x")
      case True
      with Cons.prems False have "ctype x = ''checkbox''" "\<not> checked x" by auto
      then show ?thesis by (rule payloadStep_unchecked)
    next
      case False
      then show ?thesis by (auto intro: payloadStep_other)
    qed
    moreover have "filter ?sel (x # xs) = filter ?sel xs" using False by simp
    ultimately show ?thesis unfolding unf IH by (simp split: list.splits)
  next
    case True
    then have cb: "ctype x = ''checkbox''" and ne: "cvalue x \<noteq> []"
      using Cons.prems by auto
    have step: "payloadStep inh m x k
        = Some (if truthy (m k) then the (m k) @ '','' @ cvalue x else cvalue x)"
      using payloadStep_checked[OF cb _ _ assms(1) _ assms(2)] True by simp
    have f: "map cvalue (filter ?sel (x # xs)) = cvalue x # map cvalue (filter ?sel xs)"
      using True by simp
    show ?thesis
    proof (cases "map cvalue (filter ?sel xs)")
      case Nil
      show ?thesis unfolding unf IH f Nil step by simp
    next
      case (Cons v vs)
      show ?thesis unfolding unf IH f Cons step using ne
        by (simp add: truthy_def)
    qed
  qed
qed

lemma checkbox_join_when_values_nonempty:
  assumes "k \<noteq> []" and "k \<notin> set objectPrototypeNames"
    and "\<forall>c\<in>set (elements fm). cname c = k \<and> \<not> disabled c \<longrightarrow>
           ctype c = ''checkbox'' \<and> (checked c \<longrightarrow> cvalue c \<noteq> [])"
  shows "generatePayload inh fm k
           = (if filter (\<lambda>c. cname c = k \<and> \<not> disabled c \<and> checked c) (elements fm) = []
              then None
              else Some (joinComma
                     (map cvalue (filter (\<lambda>c. cname c = k \<and> \<not> disabled c \<and> checked c)
                                    (elements fm)))))"
  using checkbox_fold[OF assms(1,2), of "elements fm" inh Map.empty] assms(3)
  by (auto simp: generatePayload_def truthy_def split: list.splits)

text \<open>
  Under an inherited name the first checked box is joined to the text of the inherited
  value: the same test takes the inherited function for a value stored before.
\<close>

lemma checkbox_under_inherited_name:
  "generatePayload inh (checkboxForm ''constructor'' [(''a'', True)]) ''constructor''
     = Some (inh ''constructor'' @ '',a'')"
  by (simp add: generatePayload_def payloadStep_def assignKey_def checkboxForm_def
        elements_def newControl_def objectPrototypeNames_def)

lemmas payload_example_defs = example_defs generatePayload_def payloadStep_def
  assignKey_def objectPrototypeNames_def checkboxForm_def


section \<open>What the payload leaves out\<close>





section \<open>Checkboxes that share a name\<close>

text \<open>
  Claim C9 at a group of two checked checkboxes whose first value is the empty string
  (the options \<^verbatim>\<open>,b\<close>): the payload holds \<^verbatim>\<open>b\<close>, the comma-join of the checked values
  is \<^verbatim>\<open>,b\<close>. The test \<^verbatim>\<open>payload[name] ? ... : ...\<close> takes the empty string stored so far
  for a missing key. Where no checked box has the empty value and the name is not an
  inherited one, the payload is the comma-join (\<open>checkbox_join_when_values_nonempty\<close>).
\<close>

theorem checkbox_join_drops_empty_value:
  "generatePayload inheritedText (checkboxForm ''topics'' [([], True), (''b'', True)]) ''topics''
     = Some ''b''
   \<and> joinComma (map fst (filter snd [([], True), (''b'', True)])) = '',b''"
  by (simp add: payload_example_defs)

section \<open>The form is enabled again after a submission\<close>

lemma listed_toggleChild: "c \<in> set (listed (toggleChild d ch)) \<Longrightarrow> disabled c = d"
  by (cases ch) (auto split: option.splits)

lemma elements_toggleForm: "c \<in> set (elements (toggleForm fm d)) \<Longrightarrow> disabled c = d"
  by (auto simp: elements_def toggleForm_def dest: listed_toggleChild)

lemma dataAction_toggleForm [simp]: "dataAction (toggleForm fm d) = dataAction fm"
  by (simp add: toggleForm_def)

lemma dataConfirmation_toggleForm [simp]:
  "dataConfirmation (toggleForm fm d) = dataConfirmation fm"
  by (simp add: toggleForm_def)

lemma handleSubmit_Some:
  "handleSubmit inh fetch pg = Some pg' \<Longrightarrow> \<exists>q. pform pg' = toggleForm q False"
  by (auto simp: handleSubmit_def Let_def split: tryResult.splits)

text \<open>
  Claim C6. Whenever handleSubmit settles, no listed element of the form is disabled; and
  it settles unless an awaited promise never does, that is unless there is a submit target
  and either the transport call or the reading of the body of a response that is not ok
  stays pending. A missing target, a rejected call and a response that is not ok all end
  in the final \<^verbatim>\<open>toggleForm(form, false)\<close>, as success does.
\<close>

theorem handleSubmit_reenables:
  "(handleSubmit inh fetch pg = Some pg' \<longrightarrow> (\<forall>c\<in>set (elements (pform pg')). \<not> disabled c))
   \<and> (handleSubmit inh fetch pg = None \<longleftrightarrow>
        truthy (dataAction (pform pg))
        \<and> (fetch (the (dataAction (pform pg))) (generatePayload inh (pform pg)) = NeverSettles
           \<or> (\<exists>r. fetch (the (dataAction (pform pg))) (generatePayload inh (pform pg)) = Fulfilled r
                  \<and> \<not> ok r \<and> bodyText r = NeverSettles)))"
proof -
  have a: "handleSubmit inh fetch pg = Some pg' \<longrightarrow> (\<forall>c\<in>set (elements (pform pg')). \<not> disabled c)"
  proof
    assume "handleSubmit inh fetch pg = Some pg'"
    then obtain q where "pform pg' = toggleForm q False" using handleSubmit_Some by blast
    then show "\<forall>c\<in>set (elements (pform pg')). \<not> disabled c"
      using elements_toggleForm[of _ q False] by auto
  qed
  have b: "handleSubmit inh fetch pg = None \<longleftrightarrow>
        truthy (dataAction (pform pg))
        \<and> (fetch (the (dataAction (pform pg))) (generatePayload inh (pform pg)) = NeverSettles
           \<or> (\<exists>r. fetch (the (dataAction (pform pg))) (generatePayload inh (pform pg)) = Fulfilled r
                  \<and> \<not> ok r \<and> bodyText r = NeverSettles))"
    by (auto simp: handleSubmit_def submitTry_def Let_def
             split: tryResult.splits promise.splits if_splits)
  from a b show ?thesis by blast
qed

theorem handleSubmit_reenables_witness:
  "handleSubmit nativeCodeText (\<lambda>url p. Rejected ''offline'')
     (newPage ((planForm ''Basic'' ''plan-pro'')\<lparr>dataAction := Some ''/submit''\<rparr>))
     = Some ((newPage ((planForm ''Basic'' ''plan-pro'')\<lparr>dataAction := Some ''/submit''\<rparr>))
               \<lparr>consoleErrors := [''offline'']\<rparr>)
   \<and> list_all (\<lambda>c. \<not> disabled c)
         (elements (pform
            ((newPage ((planForm ''Basic'' ''plan-pro'')\<lparr>dataAction := Some ''/submit''\<rparr>))
               \<lparr>consoleErrors := [''offline'']\<rparr>)))"
proof -
  let ?pg = "newPage ((planForm ''Basic'' ''plan-pro'')\<lparr>dataAction := Some ''/submit''\<rparr>)"
  have h: "handleSubmit nativeCodeText (\<lambda>url p. Rejected ''offline'') ?pg
             = Some (?pg\<lparr>consoleErrors := [''offline'']\<rparr>)"
    by (simp add: handleSubmit_def submitTry_def newPage_def planForm_def toggleForm_def
          newControl_def truthy_def Let_def)
  from handleSubmit_reenables[of nativeCodeText "\<lambda>url p. Rejected ''offline''" ?pg
         "?pg\<lparr>consoleErrors := [''offline'']\<rparr>"]
  show ?thesis using h unfolding list_all_iff by blast
qed

section \<open>The OTP sub-flow: the countdown\<close>

lemma showInt_0: "showInt 0 = ''0''"
  by (simp add: showInt_def showNat.simps[of 0] digitChar_def)

lemma tick_running:
  "0 < remaining s \<Longrightarrow>
   tick s = s\<lparr>timerText := '' '' @ showInt (remaining s) @ ''s'', remaining := remaining s - 1\<rparr>"
  by (simp add: tick_def Let_def)

lemma tick_last:
  "remaining s = 0 \<Longrightarrow> timerId s = Some t \<Longrightarrow>
   tick s = (setVisibility ''ready''
               (s\<lparr>timerText := '' 0s'', activeIntervals := removeAll t (activeIntervals s),
                  timerId := None\<rparr>))\<lparr>remaining := - 1\<rparr>"
  by (simp add: tick_def Let_def showInt_0 setVisibility_def)

lemma countdown:
  assumes "otp pg = Some s" "t \<in> set (activeIntervals s)" "timerId s = Some t"
    "remaining s = int n"
  shows "(intervalFires t ^^ Suc n) pg =
           pg\<lparr>otp := Some ((setVisibility ''ready''
                              (s\<lparr>timerText := '' 0s'',
                                 activeIntervals := removeAll t (activeIntervals s),
                                 timerId := None\<rparr>))\<lparr>remaining := - 1\<rparr>)\<rparr>"
  using assms
proof (induction n arbitrary: pg s)
  case 0
  then show ?case by (simp add: intervalFires_def tick_last)
next
  case (Suc n)
  let ?s = "s\<lparr>timerText := '' '' @ showInt (remaining s) @ ''s'', remaining := int n\<rparr>"
  have step: "intervalFires t pg = pg\<lparr>otp := Some ?s\<rparr>"
    using Suc.prems by (simp add: intervalFires_def tick_running)
  have "(intervalFires t ^^ Suc (Suc n)) pg = (intervalFires t ^^ Suc n) (intervalFires t pg)"
    by (simp only: funpow_Suc_right comp_apply)
  also have "\<dots> = (pg\<lparr>otp := Some ?s\<rparr>)\<lparr>otp := Some ((setVisibility ''ready''
                              (?s\<lparr>timerText := '' 0s'',
                                 activeIntervals := removeAll t (activeIntervals ?s),
                                 timerId := None\<rparr>))\<lparr>remaining := - 1\<rparr>)\<rparr>"
    unfolding step by (rule Suc.IH) (use Suc.prems in simp_all)
  also have "\<dots> = pg\<lparr>otp := Some ((setVisibility ''ready''
                              (s\<lparr>timerText := '' 0s'',
                                 activeIntervals := removeAll t (activeIntervals s),
                                 timerId := None\<rparr>))\<lparr>remaining := - 1\<rparr>)\<rparr>"
    by (simp add: setVisibility_def)
  finally show ?case .
qed

lemma startTimer_started: "timerStarted s \<Longrightarrow> startTimer d s = s"
  by (simp add: startTimer_def)

lemma resendClick_within_limit_when_started:
  assumes "otp pg = Some s" "timerStarted s" "resendCount s < resendLimit"
  shows "resendClick pg =
           pg\<lparr>dispatched := dispatched pg @ [''otp:resend''],
              otp := Some (s\<lparr>resendCount := resendCount s + 1\<rparr>)\<rparr>"
  using assms by (simp add: resendClick_def startTimer_started Let_def)

lemma otpAttached_state:
  "otp otpAttached = Some (resetVisibility (newSession 3 ''otp'' ''Resend OTP limit exhausted.''))"
  "listeners otpAttached =
     [(MobileInputEvent, MaybeStartTimer), (ResendClickEvent, ResendClick),
      (FormSubmitEvent, OtpSubmitCount), (FormSubmitEvent, OtpSubmitVerify)]"
  "mobileInput (pform (typeInto 2 0 v otpAttached))
     = Some ((newControl ''input'' ''tel'' ''mobile'' v)\<lparr>required := True\<rparr>)"
  by (simp_all add: otpAttached_def initOtpBehavior_def newPage_def decorateForm_def
        requiredInput_def newControl_def getFormConfigValue_def wrapperAt_def atWrapper_def
        mobileInput_def elements_def maybeStartTimer_def isDigit_def typeInto_def
        numeral_3_eq_3 numeral_2_eq_2 Let_def)


lemma typeInto_frame [simp]:
  "otp (typeInto j k v pg) = otp pg" "listeners (typeInto j k v pg) = listeners pg"
  "dispatched (typeInto j k v pg) = dispatched pg" "href (typeInto j k v pg) = href pg"
  by (simp_all add: typeInto_def)

lemma dispatched_attached: "dispatched otpAttached = []"
  by (simp add: otpAttached_def initOtpBehavior_def newPage_def maybeStartTimer_def Let_def
           split: option.splits)

lemma mobile_number_typed:
  "fire MobileInputEvent allValid (typeInto 2 0 ''9876543210'' otpAttached)
     = (typeInto 2 0 ''9876543210'' otpAttached)
         \<lparr>otp := Some (startTimer 30
                        (resetVisibility
                           (newSession 3 ''otp'' ''Resend OTP limit exhausted.'')))\<rparr>"
  by (simp add: fire_def otpAttached_state maybeStartTimer_def isDigit_def newControl_def
        resendTimerSeconds_def)

lemma startTimer_fresh:
  "timerStarted (startTimer 30 (resetVisibility (newSession j n m)))"
  "activeIntervals (startTimer 30 (resetVisibility (newSession j n m))) = [1]"
  "timerId (startTimer 30 (resetVisibility (newSession j n m))) = Some 1"
  "remaining (startTimer 30 (resetVisibility (newSession j n m))) = int 29"
  "resendCount (startTimer 30 (resetVisibility (newSession j n m))) = 0"
  by (simp_all add: startTimer_def resetVisibility_def newSession_def tick_def
        setVisibility_def Let_def)

lemma otpReady_state:
  "otpReady =
     (typeInto 2 0 ''9876543210'' otpAttached)
       \<lparr>otp := Some ((setVisibility ''ready''
                        ((startTimer 30
                            (resetVisibility
                               (newSession 3 ''otp'' ''Resend OTP limit exhausted.'')))
                           \<lparr>timerText := '' 0s'', activeIntervals := [], timerId := None\<rparr>))
                       \<lparr>remaining := - 1\<rparr>)\<rparr>"
proof -
  let ?s = "startTimer 30 (resetVisibility (newSession 3 ''otp'' ''Resend OTP limit exhausted.''))"
  let ?pg = "(typeInto 2 0 ''9876543210'' otpAttached)\<lparr>otp := Some ?s\<rparr>"
  have n: "(30::nat) = Suc 29" by simp
  have "(intervalFires 1 ^^ Suc 29) ?pg =
          ?pg\<lparr>otp := Some ((setVisibility ''ready''
                              (?s\<lparr>timerText := '' 0s'',
                                 activeIntervals := removeAll 1 (activeIntervals ?s),
                                 timerId := None\<rparr>))\<lparr>remaining := - 1\<rparr>)\<rparr>"
    by (rule countdown) (simp_all add: startTimer_fresh)
  then show ?thesis
    unfolding otpReady_def mobile_number_typed n by (simp add: startTimer_fresh)
qed


section \<open>A resend click within the limit\<close>

text \<open>
  Claim C5 on the page of decorate, once the user has typed a mobile number of ten digits
  and the countdown has run out: the resend button is shown and the counter is 0. The
  click then dispatches \<^verbatim>\<open>otp:resend\<close> and counts 1, and nothing else happens: the loader
  stays hidden, the button stays shown and no interval is active. startTimer returns at
  its guard, because \<open>timerStarted\<close> is never reset; it is so for every click within the limit once
  the timer has been started (\<open>resendClick_within_limit_when_started\<close>).
\<close>

theorem resend_click_does_not_restart_timer:
  "map_option resendButtonDisplay (otp otpReady) = Some ''inline-flex''
   \<and> map_option resendCount (otp otpReady) = Some 0
   \<and> dispatched (fire ResendClickEvent allValid otpReady) = [''otp:resend'']
   \<and> map_option resendCount (otp (fire ResendClickEvent allValid otpReady)) = Some 1
   \<and> map_option loaderDisplay (otp (fire ResendClickEvent allValid otpReady)) = Some ''none''
   \<and> map_option resendButtonDisplay (otp (fire ResendClickEvent allValid otpReady))
        = Some ''inline-flex''
   \<and> map_option activeIntervals (otp (fire ResendClickEvent allValid otpReady)) = Some []"
  by (simp add: otpReady_state fire_def otpAttached_state dispatched_attached resendClick_def
        resendLimit_def setVisibility_def startTimer_fresh startTimer_started Let_def)

section \<open>The verdict on a submitted OTP\<close>

lemma otpSubmitCount_frame:
  "pform (otpSubmitCount v pg) = pform pg" "href (otpSubmitCount v pg) = href pg"
  "focused (otpSubmitCount v pg) = focused pg"
  "otpInputIndex (otpSubmitCount v pg) = otpInputIndex pg"
  by (auto simp: otpSubmitCount_def otpErrorThreshold_def otpInputIndex_def Let_def
           split: option.splits)

lemma otpSubmitVerify_valid:
  assumes "formValid v" "otpInputIndex pg = Some r" "controlAt (pform pg) r = Some otpInput"
  shows "cvalue otpInput = ''12345'' \<Longrightarrow> href (otpSubmitVerify v pg) = Some ''/thank-you''"
    and "cvalue otpInput \<noteq> ''12345'' \<Longrightarrow>
           map_option otpRetryDisplay (otp (otpSubmitVerify v pg)) = Some ''block''
           \<and> focused (otpSubmitVerify v pg) = Some r
           \<and> pform (otpSubmitVerify v pg) = pform pg
           \<and> href (otpSubmitVerify v pg) = href pg"
proof -
  from assms(2) obtain s where s: "otp pg = Some s"
    by (auto simp: otpInputIndex_def split: option.splits)
  have i: "otpInputIndex (pg\<lparr>otp := Some (s\<lparr>otpRetryDisplay := ''none''\<rparr>)\<rparr>) = Some r"
    using assms(2) s by (simp add: otpInputIndex_def cong: option.case_cong)
  show "cvalue otpInput = ''12345'' \<Longrightarrow> href (otpSubmitVerify v pg) = Some ''/thank-you''"
    using assms(1,3) s i by (simp add: otpSubmitVerify_def otpSuccessRedirect_def Let_def)
  show "cvalue otpInput \<noteq> ''12345'' \<Longrightarrow>
           map_option otpRetryDisplay (otp (otpSubmitVerify v pg)) = Some ''block''
           \<and> focused (otpSubmitVerify v pg) = Some r
           \<and> pform (otpSubmitVerify v pg) = pform pg
           \<and> href (otpSubmitVerify v pg) = href pg"
    using assms(1,3) s i by (simp add: otpSubmitVerify_def Let_def)
qed

lemma otpReady_input:
  "otpInputIndex (typeInto 3 0 v otpReady) = Some (3, 0)"
  "controlAt (pform (typeInto 3 0 v otpReady)) (3, 0)
     = Some ((newControl ''input'' ''text'' ''otp'' v)\<lparr>required := True\<rparr>)"
  "listeners otpReady = listeners otpAttached"
  "href otpReady = None"
  by (simp_all add: otpReady_state otpInputIndex_def controlAt_def typeInto_def
        otpAttached_def initOtpBehavior_def newPage_def decorateForm_def
        requiredInput_def newControl_def getFormConfigValue_def wrapperAt_def atWrapper_def
        mobileInput_def elements_def maybeStartTimer_def isDigit_def setVisibility_def
        startTimer_def resetVisibility_def newSession_def tick_def
        numeral_3_eq_3 numeral_2_eq_2 Let_def)

text \<open>
  Claim C7. On a page where the two submit listeners of initOtpBehavior are the ones
  attached and the OTP input is in place, a submit at which \<^verbatim>\<open>form.reportValidity()\<close>
  is true sets \<^verbatim>\<open>window.location.href\<close> to \<^verbatim>\<open>/thank-you\<close> when the value of the OTP input
  is \<^verbatim>\<open>12345\<close>; for any other value the retry message is shown, the OTP input has the
  focus and is as it was, and \<^verbatim>\<open>window.location.href\<close> is not assigned.
\<close>

theorem otp_submit_verdict:
  assumes "map snd (filter (\<lambda>l. fst l = FormSubmitEvent) (listeners pg))
             = [OtpSubmitCount, OtpSubmitVerify]"
    and "otpInputIndex pg = Some r" and "controlAt (pform pg) r = Some otpInput"
    and "formValid v"
  shows "(cvalue otpInput = ''12345'' \<longrightarrow>
            href (fire FormSubmitEvent v pg) = Some ''/thank-you'')
       \<and> (cvalue otpInput \<noteq> ''12345'' \<longrightarrow>
            map_option otpRetryDisplay (otp (fire FormSubmitEvent v pg)) = Some ''block''
            \<and> focused (fire FormSubmitEvent v pg) = Some r
            \<and> controlAt (pform (fire FormSubmitEvent v pg)) r = Some otpInput
            \<and> href (fire FormSubmitEvent v pg) = href pg)"
proof -
  have f: "fire FormSubmitEvent v pg = otpSubmitVerify v (otpSubmitCount v pg)"
    using assms(1) by (simp add: fire_def)
  have i: "otpInputIndex (otpSubmitCount v pg) = Some r"
    using assms(2) by (simp add: otpSubmitCount_frame)
  have c: "controlAt (pform (otpSubmitCount v pg)) r = Some otpInput"
    using assms(3) by (simp add: otpSubmitCount_frame)
  from otpSubmitVerify_valid[OF assms(4) i c] show ?thesis
    unfolding f by (simp add: otpSubmitCount_frame assms(3))
qed

theorem otp_submit_verdict_witness:
  "map snd (filter (\<lambda>l. fst l = FormSubmitEvent) (listeners (typeInto 3 0 ''12345'' otpReady)))
     = [OtpSubmitCount, OtpSubmitVerify]
   \<and> otpInputIndex (typeInto 3 0 ''12345'' otpReady) = Some (3, 0)
   \<and> controlAt (pform (typeInto 3 0 ''12345'' otpReady)) (3, 0)
        = Some ((newControl ''input'' ''text'' ''otp'' ''12345'')\<lparr>required := True\<rparr>)
   \<and> formValid allValid
   \<and> href (fire FormSubmitEvent allValid (typeInto 3 0 ''12345'' otpReady)) = Some ''/thank-you''
   \<and> otpInputIndex (typeInto 3 0 ''1234'' otpReady) = Some (3, 0)
   \<and> controlAt (pform (typeInto 3 0 ''1234'' otpReady)) (3, 0)
        = Some ((newControl ''input'' ''text'' ''otp'' ''1234'')\<lparr>required := True\<rparr>)
   \<and> map_option otpRetryDisplay (otp (fire FormSubmitEvent allValid (typeInto 3 0 ''1234'' otpReady)))
        = Some ''block''
   \<and> focused (fire FormSubmitEvent allValid (typeInto 3 0 ''1234'' otpReady)) = Some (3, 0)
   \<and> href (fire FormSubmitEvent allValid (typeInto 3 0 ''1234'' otpReady)) = None"
proof -
  have l: "map snd (filter (\<lambda>l. fst l = FormSubmitEvent) (listeners (typeInto 3 0 v otpReady)))
     = [OtpSubmitCount, OtpSubmitVerify]" for v
    by (simp add: otpReady_input otpAttached_state)
  have v: "formValid allValid" by (simp add: allValid_def)
  have c: "cvalue ((newControl ''input'' ''text'' ''otp'' w)\<lparr>required := True\<rparr>) = w" for w
    by (simp add: newControl_def)
  from otp_submit_verdict[OF l otpReady_input(1,2) v, of "''12345''"]
       otp_submit_verdict[OF l otpReady_input(1,2) v, of "''1234''"]
  show ?thesis using l v by (simp add: otpReady_input c)
qed

section \<open>A form without an OTP field\<close>

lemma findChild_None_iff:
  "findChild P cs = None \<longleftrightarrow> (\<forall>c\<in>set (concat (map listed cs)). \<not> P c)"
  by (induction cs) (auto simp: list_ex_iff)

lemma findChild_first:
  assumes "j < length cs" "list_ex P (listed (cs ! j))"
    "\<forall>i<j. \<not> list_ex P (listed (cs ! i))"
  shows "findChild P cs = Some j"
  using assms
proof (induction cs arbitrary: j)
  case Nil
  then show ?case by simp
next
  case (Cons c cs)
  show ?case
  proof (cases j)
    case 0
    with Cons.prems show ?thesis by simp
  next
    case (Suc k)
    with Cons.prems have "\<not> list_ex P (listed c)" by auto
    moreover have "findChild P cs = Some k"
    proof (rule Cons.IH)
      show "k < length cs" using Cons.prems(1) Suc by simp
      show "list_ex P (listed (cs ! k))" using Cons.prems(2) Suc by simp
      show "\<forall>i<k. \<not> list_ex P (listed (cs ! i))"
      proof (intro allI impI)
        fix i assume "i < k"
        then have "Suc i < j" using Suc by simp
        with Cons.prems(3) have "\<not> list_ex P (listed ((c # cs) ! Suc i))" by blast
        then show "\<not> list_ex P (listed (cs ! i))" by simp
      qed
    qed
    ultimately show ?thesis using Suc by simp
  qed
qed

lemma initOtpBehavior_attaches:
  assumes "findChild (\<lambda>c. tagName c = ''input'' \<and> cname c = toCamelCase ''otp'')
             (children (pform pg)) = Some j"
    and "wrapperAt (pform pg) j = Some w"
  shows "otp (initOtpBehavior toCamelCase fieldList pg) \<noteq> None"
    and "length (listeners (initOtpBehavior toCamelCase fieldList pg)) \<ge> length (listeners pg) + 3"
  using assms
  by (auto simp: initOtpBehavior_def Let_def maybeStartTimer_def split: option.splits)

text \<open>
  Claim C10. When no listed element of the form is an input named \<open>toCamelCase ''otp''\<close>,
  or when the first child of the form that holds such an input is not a wrapper of class
  \<^verbatim>\<open>form-field\<close> (so that \<^verbatim>\<open>closest('.form-field')\<close> is null), initOtpBehavior returns the
  page as it was: form, listeners, and no session. (With a wrapper found it does attach:
  \<open>initOtpBehavior_attaches\<close>.)
\<close>

theorem initOtpBehavior_without_otp_field:
  assumes "(\<forall>c\<in>set (elements (pform pg)).
              \<not> (tagName c = ''input'' \<and> cname c = toCamelCase ''otp''))
         \<or> (\<exists>j<length (children (pform pg)).
               list_ex (\<lambda>c. tagName c = ''input'' \<and> cname c = toCamelCase ''otp'')
                 (listed (children (pform pg) ! j))
               \<and> (\<forall>i<j. \<not> list_ex (\<lambda>c. tagName c = ''input'' \<and> cname c = toCamelCase ''otp'')
                            (listed (children (pform pg) ! i)))
               \<and> (\<forall>w. children (pform pg) ! j \<noteq> Wrapper w))"
  shows "initOtpBehavior toCamelCase fieldList pg = pg"
  using assms
proof
  assume "\<forall>c\<in>set (elements (pform pg)).
            \<not> (tagName c = ''input'' \<and> cname c = toCamelCase ''otp'')"
  then have "findChild (\<lambda>c. tagName c = ''input'' \<and> cname c = toCamelCase ''otp'')
               (children (pform pg)) = None"
    by (simp add: findChild_None_iff elements_def)
  then show ?thesis by (simp add: initOtpBehavior_def)
next
  assume "\<exists>j<length (children (pform pg)).
               list_ex (\<lambda>c. tagName c = ''input'' \<and> cname c = toCamelCase ''otp'')
                 (listed (children (pform pg) ! j))
               \<and> (\<forall>i<j. \<not> list_ex (\<lambda>c. tagName c = ''input'' \<and> cname c = toCamelCase ''otp'')
                            (listed (children (pform pg) ! i)))
               \<and> (\<forall>w. children (pform pg) ! j \<noteq> Wrapper w)"
  then obtain j where j: "j < length (children (pform pg))"
    "list_ex (\<lambda>c. tagName c = ''input'' \<and> cname c = toCamelCase ''otp'')
                 (listed (children (pform pg) ! j))"
    "\<forall>i<j. \<not> list_ex (\<lambda>c. tagName c = ''input'' \<and> cname c = toCamelCase ''otp'')
                            (listed (children (pform pg) ! i))"
    "\<forall>w. children (pform pg) ! j \<noteq> Wrapper w" by blast
  have "findChild (\<lambda>c. tagName c = ''input'' \<and> cname c = toCamelCase ''otp'')
               (children (pform pg)) = Some j"
    using j(1,2,3) by (rule findChild_first)
  moreover have "wrapperAt (pform pg) j = None"
    using j(4) by (auto simp: wrapperAt_def split: child.splits)
  ultimately show ?thesis by (simp add: initOtpBehavior_def)
qed

theorem initOtpBehavior_without_otp_field_witness:
  "list_all (\<lambda>c. \<not> (tagName c = ''input'' \<and> cname c = ''otp''))
     (elements (pform (newPage (planForm ''Basic'' ''plan-pro''))))
   \<and> initOtpBehavior (\<lambda>name. name) [] (newPage (planForm ''Basic'' ''plan-pro''))
        = newPage (planForm ''Basic'' ''plan-pro'')
   \<and> children (pform (newPage hiddenOtpForm)) = [Bare (newControl ''input'' ''hidden'' ''otp'' [])]
   \<and> initOtpBehavior (\<lambda>name. name) [] (newPage hiddenOtpForm) = newPage hiddenOtpForm"
proof -
  have a: "\<forall>c\<in>set (elements (pform (newPage (planForm ''Basic'' ''plan-pro'')))).
       \<not> (tagName c = ''input'' \<and> cname c = (\<lambda>name. name) ''otp'')"
    by (simp add: newPage_def planForm_def elements_def newControl_def)
  have c: "children (pform (newPage hiddenOtpForm))
             = [Bare (newControl ''input'' ''hidden'' ''otp'' [])]"
    by (simp add: newPage_def hiddenOtpForm_def)
  have b: "\<exists>j<length (children (pform (newPage hiddenOtpForm))).
               list_ex (\<lambda>c. tagName c = ''input'' \<and> cname c = (\<lambda>name. name) ''otp'')
                 (listed (children (pform (newPage hiddenOtpForm)) ! j))
               \<and> (\<forall>i<j. \<not> list_ex (\<lambda>c. tagName c = ''input'' \<and> cname c = (\<lambda>name. name) ''otp'')
                            (listed (children (pform (newPage hiddenOtpForm)) ! i)))
               \<and> (\<forall>w. children (pform (newPage hiddenOtpForm)) ! j \<noteq> Wrapper w)"
    unfolding c by (intro exI[of _ 0]) (simp add: newControl_def)
  from initOtpBehavior_without_otp_field[of "newPage (planForm ''Basic'' ''plan-pro'')"
         "\<lambda>name. name" "[]", OF disjI1, OF a]
       initOtpBehavior_without_otp_field[of "newPage hiddenOtpForm"
         "\<lambda>name. name" "[]", OF disjI2, OF b]
  show ?thesis using a c by (simp add: list_all_iff)
qed

section \<open>Where the field builder puts the help text\<close>

lemma createElement_Element: "\<exists>as. createElement tag cls = Element tag as []"
  by (simp add: createElement_def)

lemma tagControlled_Element:
  "\<exists>bs. tagControlled c (Element t as ns) = Element t bs ns"
  by (simp add: tagControlled_def)

lemma map_of_assign [simp]: "map_of (assign k v as) k = Some v"
  by (induction as) auto

lemma attribute_setAttribute [simp]:
  "attribute k (setAttribute k v (Element t as ns)) = Some v"
  by simp

lemma helpText_id: "attribute ''id'' (helpTextOf tcc field) = Some (helpIdOf tcc field)"
  by (simp add: helpTextOf_def helpIdOf_def writeHelpText_def createElement_def)

lemma helpText_idOf: "idOf (helpTextOf tcc field) = helpIdOf tcc field"
  by (simp add: idOf_def helpText_id)

lemma buildTextArea_Element: "\<exists>as. buildTextArea tcc field = Element ''textarea'' as []"
  by (simp add: buildTextArea_def createElement_def setIf_def setRequired_def Let_def)

lemma buildInput_Element:
  "buildInput tcc mla field = Inr input \<Longrightarrow> \<exists>as. input = Element ''input'' as []"
  by (auto simp: buildInput_def createElement_def setIf_def setRequired_def Let_def
           split: if_splits option.splits)

lemma buildInput_total:
  "\<not> truthy (f_maxlength field) \<or> mla (the (f_maxlength field)) \<noteq> None \<Longrightarrow>
   \<exists>input. buildInput tcc mla field = Inr input"
  by (auto simp: buildInput_def Let_def split: option.splits)

lemma buildOptions_Element:
  "truthy (f_options field) \<Longrightarrow>
   \<exists>as ns. buildOptions tcc field c = Some (Element ''fieldset'' as ns)"
  using tagControlled_Element[of c "''fieldset''"]
  by (auto simp: buildOptions_def createElement_def Let_def tagControlled_def)

lemma buildSelect_Element:
  "truthy (f_options field) \<Longrightarrow>
   \<exists>as ns. buildSelect tcc isUrl field c = Some (Element ''div'' as ns)"
  by (auto simp: buildSelect_def createElement_def Let_def tagControlled_def)

lemma buildToggle_Element: "\<exists>as ns. buildToggle tcc field c = Element ''div'' as ns"
  by (auto simp: buildToggle_def createElement_def Let_def tagControlled_def)


lemma buildField_group:
  assumes "truthy (f_help field)" "f_type field = Some ''radio'' \<or> f_type field = Some ''checkbox''"
    "buildOptions tcc field (controlledOf field) = Some (Element t as ns)"
  shows "buildField tcc mla isUrl field = Inr (Element t as (ns @ [helpTextOf tcc field]))"
  using assms
  by (auto simp: buildField_def Let_def controlledOf_def helpTextOf_def)

lemma buildField_toggle:
  assumes "truthy (f_help field)" "f_type field = Some ''toggle''"
    "buildToggle tcc field (controlledOf field) = Element t as ns"
  shows "buildField tcc mla isUrl field = Inr (Element t as (ns @ [helpTextOf tcc field]))"
  using assms
  by (auto simp: buildField_def Let_def controlledOf_def helpTextOf_def)

lemma buildField_select:
  assumes "truthy (f_help field)" "f_type field = Some ''select''"
    "buildSelect tcc isUrl field (controlledOf field) = Some (Element t as ns)"
  shows "buildField tcc mla isUrl field = Inr (Element t as (ns @ [helpTextOf tcc field]))"
  using assms
  by (auto simp: buildField_def Let_def controlledOf_def helpTextOf_def)

lemma buildField_textarea:
  assumes "truthy (f_help field)" "f_type field = Some ''textarea''"
  shows "\<exists>as label. buildField tcc mla isUrl field =
           Inr (Element ''div'' as
                  [label, helpTextOf tcc field,
                   setAttribute ''aria-describedby'' (helpIdOf tcc field)
                     (buildTextArea tcc field)])"
proof -
  obtain ws where ws: "tagControlled (controlledOf field)
                         (createElement ''div''
                            (''form-field '' @ interpolate (f_type field) @ ''-field''))
                       = Element ''div'' ws []"
    using tagControlled_Element createElement_Element by metis
  show ?thesis
    using assms ws
    by (simp add: buildField_def Let_def controlledOf_def helpTextOf_def[symmetric]
          helpText_idOf)
qed

lemma buildField_input:
  assumes "truthy (f_help field)" "isDefaultType field" "buildInput tcc mla field = Inr input"
  shows "\<exists>as label. buildField tcc mla isUrl field =
           Inr (Element ''div'' as
                  [label,
                   setAttribute ''aria-describedby'' (helpIdOf tcc field) input,
                   helpTextOf tcc field])"
proof -
  obtain ws where ws: "tagControlled (controlledOf field)
                         (createElement ''div''
                            (''form-field '' @ interpolate (f_type field) @ ''-field''))
                       = Element ''div'' ws []"
    using tagControlled_Element createElement_Element by metis
  show ?thesis
    using assms ws
    by (simp add: buildField_def Let_def controlledOf_def helpTextOf_def[symmetric]
          helpText_idOf isDefaultType_def)
qed


lemmas builder_defs = helpField_def buildField_def buildInput_def buildTextArea_def buildOptions_def
  buildOption_def buildOptionInput_def buildSelect_def buildSelectOption_def buildToggle_def
  buildLabel_def writeHelpText_def generateId_def createElement_def tagControlled_def
  setIf_def setRequired_def orElse_def truthy_def interpolate_def idOf_def trim_def
  isSpace_def jsString_def helpTextOf_def helpIdOf_def controlledOf_def isDefaultType_def
  Let_def

text \<open>
  Claim C8, as amended. For a descriptor with help, the help paragraph has the id of the
  field followed by \<^verbatim>\<open>-help\<close>, and in the subtree that buildField returns: for a textarea
  it stands before the control, which refers to it by \<^verbatim>\<open>aria-describedby\<close>; for the
  default input it stands after the control, which refers to it by \<^verbatim>\<open>aria-describedby\<close>;
  for a radio or checkbox group, a toggle and a select (the group and the select having
  options) it is appended as the last child, after the controls. For the default input
  the result exists when the \<^verbatim>\<open>maxLength\<close> setter does not raise.
\<close>

theorem help_text_placement:
  assumes "truthy (f_help field)"
  shows "attribute ''id'' (helpTextOf tcc field) = Some (helpIdOf tcc field)
   \<and> (f_type field = Some ''textarea'' \<longrightarrow>
        (\<exists>as label cas.
           buildField tcc mla isUrl field
             = Inr (Element ''div'' as
                      [label, helpTextOf tcc field, Element ''textarea'' cas []])
           \<and> map_of cas ''aria-describedby'' = Some (helpIdOf tcc field)))
   \<and> (isDefaultType field
        \<and> (\<not> truthy (f_maxlength field) \<or> mla (the (f_maxlength field)) \<noteq> None) \<longrightarrow>
        (\<exists>as label cas.
           buildField tcc mla isUrl field
             = Inr (Element ''div'' as
                      [label, Element ''input'' cas [], helpTextOf tcc field])
           \<and> map_of cas ''aria-describedby'' = Some (helpIdOf tcc field)))
   \<and> ((f_type field = Some ''radio'' \<or> f_type field = Some ''checkbox'')
        \<and> truthy (f_options field) \<longrightarrow>
        (\<exists>as ns.
           buildOptions tcc field (controlledOf field) = Some (Element ''fieldset'' as ns)
           \<and> buildField tcc mla isUrl field
               = Inr (Element ''fieldset'' as (ns @ [helpTextOf tcc field]))))
   \<and> (f_type field = Some ''toggle'' \<longrightarrow>
        (\<exists>as ns.
           buildToggle tcc field (controlledOf field) = Element ''div'' as ns
           \<and> buildField tcc mla isUrl field
               = Inr (Element ''div'' as (ns @ [helpTextOf tcc field]))))
   \<and> (f_type field = Some ''select'' \<and> truthy (f_options field) \<longrightarrow>
        (\<exists>as ns.
           buildSelect tcc isUrl field (controlledOf field) = Some (Element ''div'' as ns)
           \<and> buildField tcc mla isUrl field
               = Inr (Element ''div'' as (ns @ [helpTextOf tcc field]))))"
proof (intro conjI impI)
  show "attribute ''id'' (helpTextOf tcc field) = Some (helpIdOf tcc field)"
    by (rule helpText_id)
next
  assume t: "f_type field = Some ''textarea''"
  obtain tas where ta: "buildTextArea tcc field = Element ''textarea'' tas []"
    using buildTextArea_Element by blast
  from buildField_textarea[OF assms t, of tcc mla isUrl] ta
  show "\<exists>as label cas.
           buildField tcc mla isUrl field
             = Inr (Element ''div'' as
                      [label, helpTextOf tcc field, Element ''textarea'' cas []])
           \<and> map_of cas ''aria-describedby'' = Some (helpIdOf tcc field)"
    by auto
next
  assume d: "isDefaultType field
        \<and> (\<not> truthy (f_maxlength field) \<or> mla (the (f_maxlength field)) \<noteq> None)"
  then obtain input where i: "buildInput tcc mla field = Inr input"
    using buildInput_total[of field mla tcc] by blast
  then obtain ias where ia: "input = Element ''input'' ias []"
    using buildInput_Element by blast
  from buildField_input[OF assms _ i, of isUrl] d ia
  show "\<exists>as label cas.
           buildField tcc mla isUrl field
             = Inr (Element ''div'' as
                      [label, Element ''input'' cas [], helpTextOf tcc field])
           \<and> map_of cas ''aria-describedby'' = Some (helpIdOf tcc field)"
    by auto
next
  assume g: "(f_type field = Some ''radio'' \<or> f_type field = Some ''checkbox'')
        \<and> truthy (f_options field)"
  then obtain as ns where
    b: "buildOptions tcc field (controlledOf field) = Some (Element ''fieldset'' as ns)"
    using buildOptions_Element by blast
  from buildField_group[OF assms _ b, of mla isUrl] g b
  show "\<exists>as ns.
           buildOptions tcc field (controlledOf field) = Some (Element ''fieldset'' as ns)
           \<and> buildField tcc mla isUrl field
               = Inr (Element ''fieldset'' as (ns @ [helpTextOf tcc field]))"
    by blast
next
  assume t: "f_type field = Some ''toggle''"
  obtain as ns where b: "buildToggle tcc field (controlledOf field) = Element ''div'' as ns"
    using buildToggle_Element by blast
  from buildField_toggle[OF assms t b, of mla isUrl] b
  show "\<exists>as ns.
           buildToggle tcc field (controlledOf field) = Element ''div'' as ns
           \<and> buildField tcc mla isUrl field
               = Inr (Element ''div'' as (ns @ [helpTextOf tcc field]))"
    by blast
next
  assume g: "f_type field = Some ''select'' \<and> truthy (f_options field)"
  then obtain as ns where
    b: "buildSelect tcc isUrl field (controlledOf field) = Some (Element ''div'' as ns)"
    using buildSelect_Element by blast
  from buildField_select[OF assms _ b, of mla] g b
  show "\<exists>as ns.
           buildSelect tcc isUrl field (controlledOf field) = Some (Element ''div'' as ns)
           \<and> buildField tcc mla isUrl field
               = Inr (Element ''div'' as (ns @ [helpTextOf tcc field]))"
    by blast
qed

theorem help_text_placement_witness:
  "truthy (f_help (helpField ''textarea'' ''message''))
   \<and> f_type (helpField ''textarea'' ''message'') = Some ''textarea''
   \<and> (\<exists>as label cas.
         buildField (\<lambda>name. name) (\<lambda>m. Some m) (\<lambda>u. False) (helpField ''textarea'' ''message'')
           = Inr (Element ''div'' as
                    [label, helpTextOf (\<lambda>name. name) (helpField ''textarea'' ''message''),
                     Element ''textarea'' cas []])
         \<and> map_of cas ''aria-describedby'' = Some ''message-help'')
   \<and> f_type (helpField ''toggle'' ''news'') = Some ''toggle''
   \<and> truthy (f_help (helpField ''toggle'' ''news''))
   \<and> (\<exists>as ns.
         buildField (\<lambda>name. name) (\<lambda>m. Some m) (\<lambda>u. False) (helpField ''toggle'' ''news'')
           = Inr (Element ''div'' as (ns @ [helpTextOf (\<lambda>name. name) (helpField ''toggle'' ''news'')])))"
proof -
  have h1: "truthy (f_help (helpField ty nm))" for ty nm
    by (simp add: helpField_def truthy_def)
  have t1: "f_type (helpField ty nm) = Some ty" for ty nm
    by (simp add: helpField_def)
  have i: "helpIdOf (\<lambda>name. name) (helpField ''textarea'' ''message'') = ''message-help''"
    by (simp add: helpIdOf_def helpField_def generateId_def orElse_def truthy_def)
  from help_text_placement[OF h1, of "\<lambda>name. name" "''textarea''" "''message''"
         "\<lambda>m. Some m" "\<lambda>u. False"]
       help_text_placement[OF h1, of "\<lambda>name. name" "''toggle''" "''news''"
         "\<lambda>m. Some m" "\<lambda>u. False"]
  show ?thesis using h1 t1 i by (simp add: t1) blast
qed
text \<open>
  Claim C8 as stated fails: for a text input the help paragraph comes after the input,
  and for a select it comes after the select, which has no \<^verbatim>\<open>aria-describedby\<close>.
\<close>

theorem help_text_after_input_counterexample:
  "buildField (\<lambda>name. name) (\<lambda>m. Some m) (\<lambda>u. False) (helpField ''text'' ''email'')
     = Inr (Element ''div'' [(''class'', ''form-field text-field'')]
              [Element ''label'' [(''for'', ''email'')] [Text ''Label''],
               Element ''input''
                 [(''type'', ''text''), (''id'', ''email''), (''name'', ''email''),
                  (''aria-describedby'', ''email-help'')] [],
               Element ''p'' [(''class'', ''field-help-text''), (''id'', ''email-help'')]
                 [Text ''Help me'']])
   \<and> buildField (\<lambda>name. name) (\<lambda>m. Some m) (\<lambda>u. False) (helpField ''select'' ''country'')
     = Inr (Element ''div'' [(''class'', ''form-field select-field'')]
              [Element ''label'' [(''for'', ''country'')] [Text ''Label''],
               Element ''select'' [(''id'', ''country''), (''name'', ''country'')]
                 [Element ''option'' [(''value'', ''A'')] [Text ''A''],
                  Element ''option'' [(''value'', ''B'')] [Text ''B'']],
               Element ''p'' [(''class'', ''field-help-text''), (''id'', ''country-help'')]
                 [Text ''Help me'']])"
  by (simp add: builder_defs)


end
